theory Spec2Isabelle
  imports Main "HOL-Library.Word" "HOL-Library.Char_ord" "HOL-Library.List_Lexorder"
    "HOL-Library.AList"
begin

section \<open>Pagination strategies of goscrape (package paginate)\<close>

text \<open>
  The package \<^verbatim>\<open>paginate\<close> implements three strategies behind the interface
  \<^verbatim>\<open>scrape.Paginator\<close>, whose only method is
  \<^verbatim>\<open>NextPage(url string, document *goquery.Selection) (string, error)\<close>.
  A Go result pair \<^verbatim>\<open>(string, error)\<close> is modelled as \<open>string \<times> error option\<close>,
  with \<open>None\<close> for \<^verbatim>\<open>nil\<close>.
\<close>

subsection \<open>Errors\<close>

text \<open>
  The error values the strategies can return all come from the Go standard library:
  \<^verbatim>\<open>url.Parse\<close> wraps its cause in a \<^verbatim>\<open>*url.Error\<close> (operation, URL text, cause),
  \<^verbatim>\<open>url.ParseQuery\<close> returns an escape error or the semicolon error, and
  \<^verbatim>\<open>strconv.ParseUint\<close> returns a syntax or a range error.
\<close>

datatype error =
    InvalidControlCharacter
  | MissingProtocolScheme
  | FirstSegmentColon
  | InvalidPort string
  | MissingBracket
  | InvalidUserinfo
  | EscapeError string
  | InvalidHostError string
  | InvalidSemicolon
  | ErrSyntax
  | ErrRange
  | UrlError string string error

type_synonym result = "string \<times> error option"

subsection \<open>The parsed document\<close>

text \<open>
  \<^verbatim>\<open>goquery\<close> is an external collaborator. A document is modelled by what
  \<^verbatim>\<open>doc.Find(sel)\<close> yields for each selector: the matched nodes in document order
  (the CSS engine is not part of this repository). A node carries its attribute list,
  as \<^verbatim>\<open>html.Node.Attr\<close> does.
\<close>

record html_Attribute =
  Namespace :: string
  Key :: string
  Val :: string

record html_Node =
  Attr :: "html_Attribute list"

record Selection =
  Find :: "string \<Rightarrow> html_Node list"

text \<open>
  \<^verbatim>\<open>getAttributePtr\<close>: the first attribute of the node whose key is the name.
\<close>

fun getAttributePtr :: "string \<Rightarrow> html_Attribute list \<Rightarrow> html_Attribute option" where
  "getAttributePtr attrName [] = None"
| "getAttributePtr attrName (a # as) =
     (if Key a = attrName then Some a else getAttributePtr attrName as)"

text \<open>
  \<^verbatim>\<open>Selection.Attr\<close>: the attribute's value for the first node of the selection, and
  whether it exists; \<^verbatim>\<open>("", false)\<close> for an empty selection.
\<close>

definition Selection_Attr :: "html_Node list \<Rightarrow> string \<Rightarrow> string \<times> bool" where
  "Selection_Attr nodes attrName =
     (case nodes of
        [] \<Rightarrow> ('''', False)
      | n # _ \<Rightarrow>
          (case getAttributePtr attrName (Attr n) of
             None \<Rightarrow> ('''', False)
           | Some a \<Rightarrow> (Val a, True)))"

subsection \<open>LimitPages\<close>

text \<open>
  \<^verbatim>\<open>limitPagesPaginator\<close> holds two Go \<^verbatim>\<open>int\<close>s and the wrapped Paginator. A Go
  \<^verbatim>\<open>int\<close> is a signed machine integer of 32 or 64 bits: the width is the type
  parameter \<open>'w\<close>, comparisons read the word with \<open>sint\<close>, and \<open>+\<close> wraps.
  The wrapped Paginator is any implementation of the interface: its state has type
  \<open>'p\<close> and its method is passed as a function that returns the result and the
  state after the call.
\<close>

record (overloaded) ('w, 'p) limitPagesPaginator =
  current :: "'w word"
  limit :: "'w word"
  underlying :: 'p

type_synonym 'p NextPage_method = "'p \<Rightarrow> string \<Rightarrow> Selection \<Rightarrow> result \<times> 'p"

definition LimitPages :: "'w::len word \<Rightarrow> 'p \<Rightarrow> ('w, 'p) limitPagesPaginator" where
  "LimitPages lim inner = \<lparr>current = 0, limit = lim, underlying = inner\<rparr>"

definition limitPages_NextPage ::
  "'p NextPage_method \<Rightarrow> ('w::len, 'p) limitPagesPaginator \<Rightarrow> string \<Rightarrow> Selection
     \<Rightarrow> result \<times> ('w, 'p) limitPagesPaginator" where
  "limitPages_NextPage inner_NextPage p url sel =
     (if sint (limit p) \<le> sint (current p) then (('''', None), p)
      else
        let p1 = p\<lparr>current := current p + 1\<rparr>;
            (r, u) = inner_NextPage (underlying p1) url sel
        in (r, p1\<lparr>underlying := u\<rparr>))"

text \<open>
  A sequence of calls on one paginator: the results in order, and the state after the
  last call.
\<close>

fun limitPages_calls ::
  "'p NextPage_method \<Rightarrow> ('w::len, 'p) limitPagesPaginator \<Rightarrow> (string \<times> Selection) list
     \<Rightarrow> result list \<times> ('w, 'p) limitPagesPaginator" where
  "limitPages_calls inner_NextPage p [] = ([], p)"
| "limitPages_calls inner_NextPage p ((url, sel) # rest) =
     (let (r, p1) = limitPages_NextPage inner_NextPage p url sel;
          (rs, p2) = limitPages_calls inner_NextPage p1 rest
      in (r # rs, p2))"

text \<open>
  A counting test double: its state is the number of times it was invoked, and it
  answers with a fixed result.
\<close>

definition counting_NextPage :: "result \<Rightarrow> nat NextPage_method" where
  "counting_NextPage r n url sel = (r, Suc n)"

section \<open>The Go standard library, as far as the strategies call it\<close>

text \<open>
  The two leaf strategies are thin callers of \<^verbatim>\<open>net/url\<close> and \<^verbatim>\<open>strconv\<close>. Their
  functions are embedded here after the library's sources (Go 1.22), with their names.
  A Go string is a byte string: \<open>char\<close> is a byte, and the order on \<open>char\<close> and
  on strings is the byte order that Go's \<^verbatim>\<open><\<close> on strings uses.
\<close>

subsection \<open>Package strings, for one-byte separators\<close>

definition HasPrefix :: "string \<Rightarrow> string \<Rightarrow> bool" where
  "HasPrefix s pre = (take (length pre) s = pre)"

definition HasSuffix :: "string \<Rightarrow> string \<Rightarrow> bool" where
  "HasSuffix s suf = (length suf \<le> length s \<and> drop (length s - length suf) s = suf)"

fun IndexByte :: "string \<Rightarrow> char \<Rightarrow> nat option" where
  "IndexByte [] c = None"
| "IndexByte (x # xs) c = (if x = c then Some 0 else map_option Suc (IndexByte xs c))"

fun LastIndexByte :: "string \<Rightarrow> char \<Rightarrow> nat option" where
  "LastIndexByte [] c = None"
| "LastIndexByte (x # xs) c =
     (case LastIndexByte xs c of
        Some i \<Rightarrow> Some (Suc i)
      | None \<Rightarrow> if x = c then Some 0 else None)"

text \<open>\<^verbatim>\<open>strings.Index\<close> for any substring: the first position where it starts.\<close>

fun Index :: "string \<Rightarrow> string \<Rightarrow> nat option" where
  "Index [] sub = (if sub = [] then Some 0 else None)"
| "Index (x # xs) sub =
     (if HasPrefix (x # xs) sub then Some 0 else map_option Suc (Index xs sub))"

text \<open>\<^verbatim>\<open>strings.Cut(s, sep)\<close>: the text before and after the first separator, and whether
  the separator was found.\<close>

definition Cut :: "string \<Rightarrow> char \<Rightarrow> string \<times> string \<times> bool" where
  "Cut s sep =
     (case IndexByte s sep of
        None \<Rightarrow> (s, '''', False)
      | Some i \<Rightarrow> (take i s, drop (Suc i) s, True))"

definition Contains :: "string \<Rightarrow> char \<Rightarrow> bool" where
  "Contains s c = (IndexByte s c \<noteq> None)"

definition Count :: "string \<Rightarrow> char \<Rightarrow> nat" where
  "Count s c = length (filter (\<lambda>x. x = c) s)"

definition is_upper :: "char \<Rightarrow> bool" where
  "is_upper c = (CHR ''A'' \<le> c \<and> c \<le> CHR ''Z'')"

definition is_lower :: "char \<Rightarrow> bool" where
  "is_lower c = (CHR ''a'' \<le> c \<and> c \<le> CHR ''z'')"

definition is_digit :: "char \<Rightarrow> bool" where
  "is_digit c = (CHR ''0'' \<le> c \<and> c \<le> CHR ''9'')"

text \<open>\<^verbatim>\<open>strings.ToLower\<close> on the ASCII letters (a scheme holds no other letters).\<close>

definition ToLower :: "string \<Rightarrow> string" where
  "ToLower s = map (\<lambda>c. if is_upper c then char_of (of_char c + (32 :: nat)) else c) s"

subsection \<open>Package net/url: escaping\<close>

datatype encoding =
    encodePath
  | encodePathSegment
  | encodeHost
  | encodeZone
  | encodeUserPassword
  | encodeQueryComponent
  | encodeFragment

definition ishex :: "char \<Rightarrow> bool" where
  "ishex c = (is_digit c \<or> (CHR ''a'' \<le> c \<and> c \<le> CHR ''f'') \<or> (CHR ''A'' \<le> c \<and> c \<le> CHR ''F''))"

definition unhex :: "char \<Rightarrow> nat" where
  "unhex c =
     (if is_digit c then of_char c - of_char CHR ''0''
      else if CHR ''a'' \<le> c \<and> c \<le> CHR ''f'' then of_char c - of_char CHR ''a'' + 10
      else if CHR ''A'' \<le> c \<and> c \<le> CHR ''F'' then of_char c - of_char CHR ''A'' + 10
      else 0)"

text \<open>The byte \<^verbatim>\<open>unhex(a)<<4 | unhex(b)\<close>.\<close>

definition unhex2 :: "char \<Rightarrow> char \<Rightarrow> char" where
  "unhex2 a b = char_of (unhex a * 16 + unhex b)"

definition upperhex :: "nat \<Rightarrow> char" where
  "upperhex n = ''0123456789ABCDEF'' ! n"

definition shouldEscape :: "char \<Rightarrow> encoding \<Rightarrow> bool" where
  "shouldEscape c mode =
     (if is_lower c \<or> is_upper c \<or> is_digit c then False
      else if (mode = encodeHost \<or> mode = encodeZone) \<and>
              c \<in> set (CHR 0x27 # CHR 0x22 # ''!$&()*+,;=:[]<>'') then False
      else if c \<in> set ''-_.~'' then False
      else if c \<in> set ''$&+,/:;=?@'' \<and> mode = encodePath then c = CHR ''?''
      else if c \<in> set ''$&+,/:;=?@'' \<and> mode = encodePathSegment then
        c = CHR ''/'' \<or> c = CHR '';'' \<or> c = CHR '','' \<or> c = CHR ''?''
      else if c \<in> set ''$&+,/:;=?@'' \<and> mode = encodeUserPassword then
        c = CHR ''@'' \<or> c = CHR ''/'' \<or> c = CHR ''?'' \<or> c = CHR '':''
      else if c \<in> set ''$&+,/:;=?@'' \<and> mode = encodeQueryComponent then True
      else if c \<in> set ''$&+,/:;=?@'' \<and> mode = encodeFragment then False
      else if mode = encodeFragment \<and> c \<in> set ''!()*'' then False
      else True)"

text \<open>
  \<^verbatim>\<open>unescape\<close>. The library checks the whole string first and decodes it in a second
  loop; here the two loops are one recursion, which reports the same (leftmost) error.
\<close>

fun unescape :: "string \<Rightarrow> encoding \<Rightarrow> error + string" where
  "unescape [] mode = Inr []"
| "unescape (c # cs) mode =
     (if c = CHR ''%'' then
        (case cs of
           a # b # rest \<Rightarrow>
             if \<not> ishex a \<or> \<not> ishex b then Inl (EscapeError (take 3 (c # cs)))
             else if mode = encodeHost \<and> unhex a < 8 \<and> [c, a, b] \<noteq> ''%25'' then
               Inl (EscapeError [c, a, b])
             else if mode = encodeZone \<and> [c, a, b] \<noteq> ''%25'' \<and> unhex2 a b \<noteq> CHR '' '' \<and>
                     shouldEscape (unhex2 a b) encodeHost then
               Inl (EscapeError [c, a, b])
             else
               (case unescape rest mode of
                  Inl e \<Rightarrow> Inl e
                | Inr t \<Rightarrow> Inr (unhex2 a b # t))
         | _ \<Rightarrow> Inl (EscapeError (take 3 (c # cs))))
      else if c = CHR ''+'' then
        (case unescape cs mode of
           Inl e \<Rightarrow> Inl e
         | Inr t \<Rightarrow> Inr ((if mode = encodeQueryComponent then CHR '' '' else CHR ''+'') # t))
      else if (mode = encodeHost \<or> mode = encodeZone) \<and> of_char c < (128 :: nat) \<and>
              shouldEscape c encodeHost then
        Inl (InvalidHostError [c])
      else
        (case unescape cs mode of
           Inl e \<Rightarrow> Inl e
         | Inr t \<Rightarrow> Inr (c # t)))"

definition escape_byte :: "char \<Rightarrow> encoding \<Rightarrow> string" where
  "escape_byte c mode =
     (if c = CHR '' '' \<and> mode = encodeQueryComponent then ''+''
      else if shouldEscape c mode then
        [CHR ''%'', upperhex (of_char c div 16), upperhex (of_char c mod 16)]
      else [c])"

definition escape :: "string \<Rightarrow> encoding \<Rightarrow> string" where
  "escape s mode = concat (map (\<lambda>c. escape_byte c mode) s)"

definition QueryUnescape :: "string \<Rightarrow> error + string" where
  "QueryUnescape s = unescape s encodeQueryComponent"

definition QueryEscape :: "string \<Rightarrow> string" where
  "QueryEscape s = escape s encodeQueryComponent"

definition validEncoded :: "string \<Rightarrow> encoding \<Rightarrow> bool" where
  "validEncoded s mode =
     list_all (\<lambda>c. c \<in> set (CHR 0x27 # ''!$&()*+,;=:@[]%'') \<or> \<not> shouldEscape c mode) s"

subsection \<open>Package net/url: the URL structure and its parser\<close>

record Userinfo =
  username :: string
  password :: string
  passwordSet :: bool

record URL =
  Scheme :: string
  Opaque :: string
  User :: "Userinfo option"
  Host :: string
  Path :: string
  RawPath :: string
  OmitHost :: bool
  ForceQuery :: bool
  RawQuery :: string
  Fragment :: string
  RawFragment :: string

text \<open>The zero value \<^verbatim>\<open>new(URL)\<close>.\<close>

definition new_URL :: URL where
  "new_URL = \<lparr>Scheme = '''', Opaque = '''', User = None, Host = '''', Path = '''', RawPath = '''',
     OmitHost = False, ForceQuery = False, RawQuery = '''', Fragment = '''', RawFragment = ''''\<rparr>"

definition stringContainsCTLByte :: "string \<Rightarrow> bool" where
  "stringContainsCTLByte s = list_ex (\<lambda>b. b < CHR '' '' \<or> b = CHR 0x7F) s"

text \<open>
  \<^verbatim>\<open>getScheme\<close>: the loop over the bytes of \<open>rawURL\<close>, at index \<open>i\<close> with the bytes
  from \<open>i\<close> on still to read.
\<close>

fun getScheme_from :: "string \<Rightarrow> nat \<Rightarrow> string \<Rightarrow> error + string \<times> string" where
  "getScheme_from rawURL i [] = Inr ('''', rawURL)"
| "getScheme_from rawURL i (c # cs) =
     (if is_lower c \<or> is_upper c then getScheme_from rawURL (Suc i) cs
      else if is_digit c \<or> c = CHR ''+'' \<or> c = CHR ''-'' \<or> c = CHR ''.'' then
        (if i = 0 then Inr ('''', rawURL) else getScheme_from rawURL (Suc i) cs)
      else if c = CHR '':'' then
        (if i = 0 then Inl MissingProtocolScheme
         else Inr (take i rawURL, drop (Suc i) rawURL))
      else Inr ('''', rawURL))"

definition getScheme :: "string \<Rightarrow> error + string \<times> string" where
  "getScheme rawURL = getScheme_from rawURL 0 rawURL"

definition validOptionalPort :: "string \<Rightarrow> bool" where
  "validOptionalPort port =
     (case port of
        [] \<Rightarrow> True
      | c # ds \<Rightarrow> c = CHR '':'' \<and> list_all is_digit ds)"

definition parseHost :: "string \<Rightarrow> error + string" where
  "parseHost host =
     (if HasPrefix host ''['' then
        (case LastIndexByte host CHR '']'' of
           None \<Rightarrow> Inl MissingBracket
         | Some i \<Rightarrow>
             if \<not> validOptionalPort (drop (Suc i) host) then Inl (InvalidPort (drop (Suc i) host))
             else
               (case Index (take i host) ''%25'' of
                  Some zone \<Rightarrow>
                    (case unescape (take zone host) encodeHost of
                       Inl e \<Rightarrow> Inl e
                     | Inr host1 \<Rightarrow>
                         (case unescape (drop zone (take i host)) encodeZone of
                            Inl e \<Rightarrow> Inl e
                          | Inr host2 \<Rightarrow>
                              (case unescape (drop i host) encodeHost of
                                 Inl e \<Rightarrow> Inl e
                               | Inr host3 \<Rightarrow> Inr (host1 @ host2 @ host3))))
                | None \<Rightarrow> unescape host encodeHost))
      else
        (case LastIndexByte host CHR '':'' of
           Some i \<Rightarrow>
             if \<not> validOptionalPort (drop i host) then Inl (InvalidPort (drop i host))
             else unescape host encodeHost
         | None \<Rightarrow> unescape host encodeHost))"

definition validUserinfo :: "string \<Rightarrow> bool" where
  "validUserinfo s =
     list_all (\<lambda>r. is_upper r \<or> is_lower r \<or> is_digit r \<or>
                   r \<in> set (CHR 0x27 # ''-._:~!$&()*+,;=%@'')) s"

definition parseAuthority :: "string \<Rightarrow> error + Userinfo option \<times> string" where
  "parseAuthority authority =
     (case LastIndexByte authority CHR ''@'' of
        None \<Rightarrow>
          (case parseHost authority of
             Inl e \<Rightarrow> Inl e
           | Inr host \<Rightarrow> Inr (None, host))
      | Some i \<Rightarrow>
          (case parseHost (drop (Suc i) authority) of
             Inl e \<Rightarrow> Inl e
           | Inr host \<Rightarrow>
               let userinfo = take i authority in
               if \<not> validUserinfo userinfo then Inl InvalidUserinfo
               else if \<not> Contains userinfo CHR '':'' then
                 (case unescape userinfo encodeUserPassword of
                    Inl e \<Rightarrow> Inl e
                  | Inr name \<Rightarrow>
                      Inr (Some \<lparr>username = name, password = '''', passwordSet = False\<rparr>, host))
               else
                 (case Cut userinfo CHR '':'' of
                    (name0, password0, _) \<Rightarrow>
                      (case unescape name0 encodeUserPassword of
                         Inl e \<Rightarrow> Inl e
                       | Inr name \<Rightarrow>
                           (case unescape password0 encodeUserPassword of
                              Inl e \<Rightarrow> Inl e
                            | Inr pw \<Rightarrow>
                                Inr (Some \<lparr>username = name, password = pw, passwordSet = True\<rparr>,
                                     host))))))"

definition setPath :: "URL \<Rightarrow> string \<Rightarrow> error + URL" where
  "setPath u p =
     (case unescape p encodePath of
        Inl e \<Rightarrow> Inl e
      | Inr path \<Rightarrow>
          Inr (u\<lparr>Path := path, RawPath := (if p = escape path encodePath then '''' else p)\<rparr>))"

definition setFragment :: "URL \<Rightarrow> string \<Rightarrow> error + URL" where
  "setFragment u f =
     (case unescape f encodeFragment of
        Inl e \<Rightarrow> Inl e
      | Inr frag \<Rightarrow>
          Inr (u\<lparr>Fragment := frag,
                 RawFragment := (if f = escape frag encodeFragment then '''' else f)\<rparr>))"

text \<open>
  \<^verbatim>\<open>parse(rawURL, viaRequest)\<close> with \<^verbatim>\<open>viaRequest = false\<close>, the only way
  \<^verbatim>\<open>url.Parse\<close> calls it.
\<close>

definition parse :: "string \<Rightarrow> error + URL" where
  "parse rawURL =
     (if stringContainsCTLByte rawURL then Inl InvalidControlCharacter
      else if rawURL = ''*'' then Inr (new_URL\<lparr>Path := ''*''\<rparr>)
      else
        (case getScheme rawURL of
           Inl e \<Rightarrow> Inl e
         | Inr (scheme, rest0) \<Rightarrow>
             let url0 = new_URL\<lparr>Scheme := ToLower scheme\<rparr>;
                 (rest, url) =
                   (if HasSuffix rest0 ''?'' \<and> Count rest0 CHR ''?'' = 1
                    then (butlast rest0, url0\<lparr>ForceQuery := True\<rparr>)
                    else (case Cut rest0 CHR ''?'' of
                            (before, after, _) \<Rightarrow> (before, url0\<lparr>RawQuery := after\<rparr>)))
             in
               if \<not> HasPrefix rest ''/'' \<and> Scheme url \<noteq> '''' then Inr (url\<lparr>Opaque := rest\<rparr>)
               else if \<not> HasPrefix rest ''/'' \<and> Contains (fst (Cut rest CHR ''/'')) CHR '':'' then
                 Inl FirstSegmentColon
               else if (Scheme url \<noteq> '''' \<or> \<not> HasPrefix rest ''///'') \<and> HasPrefix rest ''//'' then
                 (let (authority, rest1) =
                        (case IndexByte (drop 2 rest) CHR ''/'' of
                           None \<Rightarrow> (drop 2 rest, '''')
                         | Some i \<Rightarrow> (take i (drop 2 rest), drop i (drop 2 rest)))
                  in case parseAuthority authority of
                       Inl e \<Rightarrow> Inl e
                     | Inr (user, host) \<Rightarrow> setPath (url\<lparr>User := user, Host := host\<rparr>) rest1)
               else if Scheme url \<noteq> '''' \<and> HasPrefix rest ''/'' then
                 setPath (url\<lparr>OmitHost := True\<rparr>) rest
               else setPath url rest))"

text \<open>
  \<^verbatim>\<open>url.Parse\<close>: the fragment is cut off first; an error is wrapped in a
  \<^verbatim>\<open>*url.Error\<close> with the operation and the text that failed to parse.
\<close>

definition url_Parse :: "string \<Rightarrow> error + URL" where
  "url_Parse rawURL =
     (case Cut rawURL CHR ''#'' of
        (u, frag, _) \<Rightarrow>
          (case parse u of
             Inl err \<Rightarrow> Inl (UrlError ''parse'' u err)
           | Inr url \<Rightarrow>
               if frag = '''' then Inr url
               else
                 (case setFragment url frag of
                    Inl err \<Rightarrow> Inl (UrlError ''parse'' rawURL err)
                  | Inr url' \<Rightarrow> Inr url')))"

subsection \<open>Package net/url: printing a URL\<close>

definition Userinfo_String :: "Userinfo \<Rightarrow> string" where
  "Userinfo_String u =
     escape (username u) encodeUserPassword @
     (if passwordSet u then '':'' @ escape (password u) encodeUserPassword else '''')"

definition EscapedPath :: "URL \<Rightarrow> string" where
  "EscapedPath u =
     (if RawPath u \<noteq> '''' \<and> validEncoded (RawPath u) encodePath \<and>
         unescape (RawPath u) encodePath = Inr (Path u)
      then RawPath u
      else if Path u = ''*'' then ''*''
      else escape (Path u) encodePath)"

definition EscapedFragment :: "URL \<Rightarrow> string" where
  "EscapedFragment u =
     (if RawFragment u \<noteq> '''' \<and> validEncoded (RawFragment u) encodeFragment \<and>
         unescape (RawFragment u) encodeFragment = Inr (Fragment u)
      then RawFragment u
      else escape (Fragment u) encodeFragment)"

text \<open>\<^verbatim>\<open>URL.String\<close>: the buffer is built in four steps, as the method writes it.\<close>

definition URL_String :: "URL \<Rightarrow> string" where
  "URL_String u =
     (let buf0 = (if Scheme u \<noteq> '''' then Scheme u @ '':'' else '''');
          buf1 =
            (if Opaque u \<noteq> '''' then buf0 @ Opaque u
             else
               let buf2 =
                     (if Scheme u \<noteq> '''' \<or> Host u \<noteq> '''' \<or> User u \<noteq> None then
                        (if OmitHost u \<and> Host u = '''' \<and> User u = None then buf0
                         else
                           buf0 @
                           (if Host u \<noteq> '''' \<or> Path u \<noteq> '''' \<or> User u \<noteq> None then ''//'' else '''') @
                           (case User u of None \<Rightarrow> '''' | Some ui \<Rightarrow> Userinfo_String ui @ ''@'') @
                           (if Host u \<noteq> '''' then escape (Host u) encodeHost else ''''))
                      else buf0);
                   path = EscapedPath u;
                   buf3 = (if path \<noteq> '''' \<and> hd path \<noteq> CHR ''/'' \<and> Host u \<noteq> '''' then buf2 @ ''/'' else buf2);
                   buf4 = (if buf3 = '''' \<and> Contains (fst (Cut path CHR ''/'')) CHR '':''
                           then buf3 @ ''./'' else buf3)
               in buf4 @ path);
          buf5 = (if ForceQuery u \<or> RawQuery u \<noteq> '''' then buf1 @ ''?'' @ RawQuery u else buf1)
      in if Fragment u \<noteq> '''' then buf5 @ ''#'' @ EscapedFragment u else buf5)"

subsection \<open>Package net/url: reference resolution\<close>

text \<open>
  The loop of \<^verbatim>\<open>resolvePath\<close>: it cuts one element off \<open>remaining\<close> at each turn and
  keeps the buffer \<open>dst\<close> and the flag \<open>first\<close>; it returns the buffer and the last
  element.
\<close>

function resolvePath_loop :: "string \<Rightarrow> string \<Rightarrow> bool \<Rightarrow> string \<times> string" where
  "resolvePath_loop remaining dst first =
     (case Cut remaining CHR ''/'' of
        (elem, remaining', found) \<Rightarrow>
          let (dst', first') =
                (if elem = ''.'' then (dst, False)
                 else if elem = ''..'' then
                   (case LastIndexByte (drop 1 dst) CHR ''/'' of
                      None \<Rightarrow> (''/'', True)
                    | Some index \<Rightarrow> (''/'' @ take index (drop 1 dst), first))
                 else ((if \<not> first then dst @ ''/'' else dst) @ elem, False))
          in if found then resolvePath_loop remaining' dst' first' else (dst', elem))"
  by pat_completeness auto
termination
proof (relation "measure (\<lambda>(remaining, dst, first). length remaining)")
  show "wf (measure (\<lambda>(remaining, dst, first). length remaining))"
    by simp
next
  fix remaining dst :: string and first found :: bool and x elem y remaining' xa dst' first'
  assume "(elem, y) = Cut remaining CHR ''/''" "(remaining', found) = y" "found"
  then have "IndexByte remaining CHR ''/'' \<noteq> None \<and>
             remaining' = drop (Suc (the (IndexByte remaining CHR ''/''))) remaining"
    by (auto simp: Cut_def split: option.splits)
  moreover have "remaining \<noteq> []"
    using calculation by auto
  ultimately show "((remaining', dst', first'), (remaining, dst, first))
      \<in> measure (\<lambda>(remaining, dst, first). length remaining)"
    by simp
qed

definition resolvePath :: "string \<Rightarrow> string \<Rightarrow> string" where
  "resolvePath base ref =
     (let full =
            (if ref = '''' then base
             else if hd ref \<noteq> CHR ''/'' then
               (case LastIndexByte base CHR ''/'' of
                  None \<Rightarrow> ref
                | Some i \<Rightarrow> take (Suc i) base @ ref)
             else ref)
      in if full = '''' then ''''
         else
           let (dst, elem) = resolvePath_loop full ''/'' True;
               r = (if elem = ''.'' \<or> elem = ''..'' then dst @ ''/'' else dst)
           in if length r > 1 \<and> r ! 1 = CHR ''/'' then drop 1 r else r)"

text \<open>A call of \<^verbatim>\<open>setPath\<close> whose error is ignored: on an error the URL is unchanged.\<close>

definition setPath_ignoring_error :: "URL \<Rightarrow> string \<Rightarrow> URL" where
  "setPath_ignoring_error u p = (case setPath u p of Inl e \<Rightarrow> u | Inr u' \<Rightarrow> u')"

definition ResolveReference :: "URL \<Rightarrow> URL \<Rightarrow> URL" where
  "ResolveReference u ref =
     (let url = ref\<lparr>Scheme := (if Scheme ref = '''' then Scheme u else Scheme ref)\<rparr> in
      if Scheme ref \<noteq> '''' \<or> Host ref \<noteq> '''' \<or> User ref \<noteq> None then
        setPath_ignoring_error url (resolvePath (EscapedPath ref) '''')
      else if Opaque ref \<noteq> '''' then url\<lparr>User := None, Host := '''', Path := ''''\<rparr>
      else
        let url1 =
              (if Path ref = '''' \<and> \<not> ForceQuery ref \<and> RawQuery ref = '''' then
                 (if Fragment ref = '''' then
                    url\<lparr>RawQuery := RawQuery u, Fragment := Fragment u, RawFragment := RawFragment u\<rparr>
                  else url\<lparr>RawQuery := RawQuery u\<rparr>)
               else url)
        in setPath_ignoring_error (url1\<lparr>Host := Host u, User := User u\<rparr>)
             (resolvePath (EscapedPath u) (EscapedPath ref)))"

subsection \<open>Package net/url: query values\<close>

text \<open>
  \<^verbatim>\<open>url.Values\<close> is a \<^verbatim>\<open>map[string][]string\<close>. It is an association list with
  distinct keys here; the code reads it by key and in the sorted order of its keys
  only, so the order of the list stands for nothing.
\<close>

type_synonym Values = "(string \<times> string list) list"

text \<open>\<^verbatim>\<open>m[key]\<close>, where a missing key reads as the empty slice.\<close>

definition Values_index :: "Values \<Rightarrow> string \<Rightarrow> string list" where
  "Values_index m key = (case map_of m key of None \<Rightarrow> [] | Some vs \<Rightarrow> vs)"

lemma Cut_shorter:
  "query \<noteq> [] \<Longrightarrow> Cut query sep = (key, query', found) \<Longrightarrow> length query' < length query"
  by (auto simp: Cut_def split: option.splits)

text \<open>
  \<^verbatim>\<open>parseQuery\<close>: the loop cuts the query at each \<^verbatim>\<open>&\<close>; \<open>err\<close> is the error kept
  so far.
\<close>

function parseQuery :: "Values \<Rightarrow> error option \<Rightarrow> string \<Rightarrow> Values \<times> error option" where
  "parseQuery m err query =
     (if query = '''' then (m, err)
      else
        (case Cut query CHR ''&'' of
           (key, query', _) \<Rightarrow>
             if Contains key CHR '';'' then parseQuery m (Some InvalidSemicolon) query'
             else if key = '''' then parseQuery m err query'
             else
               (case Cut key CHR ''='' of
                  (key1, value, _) \<Rightarrow>
                    (case QueryUnescape key1 of
                       Inl err1 \<Rightarrow> parseQuery m (if err = None then Some err1 else err) query'
                     | Inr key2 \<Rightarrow>
                         (case QueryUnescape value of
                            Inl err1 \<Rightarrow>
                              parseQuery m (if err = None then Some err1 else err) query'
                          | Inr value2 \<Rightarrow>
                              parseQuery
                                (AList.update key2 (Values_index m key2 @ [value2]) m)
                                err query')))))"
  by pat_completeness auto
termination
  by (relation "measure (\<lambda>(m, err, query). length query)")
     (auto dest: Cut_shorter [OF _ sym])

definition ParseQuery :: "string \<Rightarrow> Values \<times> error option" where
  "ParseQuery query = parseQuery [] None query"

text \<open>
  \<^verbatim>\<open>Values.Encode\<close>: the keys are sorted (\<^verbatim>\<open>sort.Strings\<close>), and the values of
  each key are written in their order; a \<^verbatim>\<open>&\<close> goes before every pair but the first
  one written.
\<close>

fun Encode_values :: "string \<Rightarrow> string list \<Rightarrow> string \<Rightarrow> string" where
  "Encode_values keyEscaped [] buf = buf"
| "Encode_values keyEscaped (v # vs) buf =
     Encode_values keyEscaped vs
       ((if buf \<noteq> '''' then buf @ ''&'' else buf) @ keyEscaped @ ''='' @ QueryEscape v)"

fun Encode_keys :: "Values \<Rightarrow> string list \<Rightarrow> string \<Rightarrow> string" where
  "Encode_keys v [] buf = buf"
| "Encode_keys v (k # keys) buf =
     Encode_keys v keys (Encode_values (QueryEscape k) (Values_index v k) buf)"

definition Values_Encode :: "Values \<Rightarrow> string" where
  "Values_Encode v = Encode_keys v (sort (map fst v)) ''''"

subsection \<open>Package strconv\<close>

text \<open>
  \<^verbatim>\<open>strconv.ParseUint(s, 10, 64)\<close>. The accumulator is a \<^verbatim>\<open>uint64\<close>; \<open>cutoff\<close> is
  \<^verbatim>\<open>maxUint64/10 + 1\<close> and \<open>maxVal\<close> is \<^verbatim>\<open>1<<64 - 1\<close>. With base 10 the cases for a
  base prefix and for underscores are not reachable and are left out; a letter is a
  digit of value 10 or more, which base 10 refuses.
\<close>

definition cutoff :: "64 word" where
  "cutoff = 1844674407370955162"

definition maxVal :: "64 word" where
  "maxVal = 18446744073709551615"

definition lower :: "char \<Rightarrow> char" where
  "lower c = char_of (or (of_char c :: nat) 32)"

fun ParseUint_loop :: "string \<Rightarrow> 64 word \<Rightarrow> 64 word \<times> error option" where
  "ParseUint_loop [] n = (n, None)"
| "ParseUint_loop (c # cs) n =
     (if \<not> (is_digit c \<or> is_lower (lower c)) then (0, Some ErrSyntax)
      else
        let d = (if is_digit c then of_char c - of_char CHR ''0''
                 else of_char (lower c) - of_char CHR ''a'' + (10 :: nat))
        in if d \<ge> 10 then (0, Some ErrSyntax)
           else if n \<ge> cutoff then (maxVal, Some ErrRange)
           else
             let n1 = n * 10 + of_nat d
             in if n1 < n * 10 \<or> n1 > maxVal then (maxVal, Some ErrRange)
                else ParseUint_loop cs n1)"

definition ParseUint :: "string \<Rightarrow> 64 word \<times> error option" where
  "ParseUint s = (if s = '''' then (0, Some ErrSyntax) else ParseUint_loop s 0)"

text \<open>
  \<^verbatim>\<open>strconv.FormatUint(i, 10)\<close>: the decimal digits of \<open>i\<close>, most significant
  first, each read from the digit table as \<^verbatim>\<open>formatBits\<close> does.
\<close>

lemma div10_smaller: "\<not> u < 10 \<Longrightarrow> unat (u div 10) < unat (u :: 64 word)"
  by (simp add: unat_div word_less_nat_alt)

function formatBits :: "64 word \<Rightarrow> string" where
  "formatBits u =
     (if u < 10 then [''0123456789'' ! unat u]
      else formatBits (u div 10) @ [''0123456789'' ! unat (u mod 10)])"
  by pat_completeness auto
termination
  by (relation "measure unat") (auto simp: div10_smaller)

definition FormatUint :: "64 word \<Rightarrow> string" where
  "FormatUint i = formatBits i"

section \<open>The leaf strategies\<close>

subsection \<open>BySelector\<close>

record bySelectorPaginator =
  sel :: string
  attr :: string

definition BySelector :: "string \<Rightarrow> string \<Rightarrow> bySelectorPaginator" where
  "BySelector s a = \<lparr>sel = s, attr = a\<rparr>"

definition bySelector_NextPage :: "bySelectorPaginator \<Rightarrow> string \<Rightarrow> Selection \<Rightarrow> result" where
  "bySelector_NextPage p uri doc =
     (case Selection_Attr (Find doc (sel p)) (attr p) of
        (val, found) \<Rightarrow>
          if \<not> found then ('''', None)
          else
            (case url_Parse uri of
               Inl err \<Rightarrow> ('''', Some err)
             | Inr base \<Rightarrow>
                 (case url_Parse val of
                    Inl err \<Rightarrow> ('''', Some err)
                  | Inr attrUrl \<Rightarrow> (URL_String (ResolveReference base attrUrl), None))))"

subsection \<open>ByQueryParam\<close>

record byQueryParamPaginator =
  param :: string

definition ByQueryParam :: "string \<Rightarrow> byQueryParamPaginator" where
  "ByQueryParam s = \<lparr>param = s\<rparr>"

definition byQueryParam_NextPage :: "byQueryParamPaginator \<Rightarrow> string \<Rightarrow> Selection \<Rightarrow> result" where
  "byQueryParam_NextPage p u doc =
     (case url_Parse u of
        Inl err \<Rightarrow> ('''', Some err)
      | Inr uri \<Rightarrow>
          (case ParseQuery (RawQuery uri) of
             (vals, Some err) \<Rightarrow> ('''', Some err)
           | (vals, None) \<Rightarrow>
               (case map_of vals (param p) of
                  None \<Rightarrow> ('''', None)
                | Some params \<Rightarrow>
                    if length params < 1 then ('''', None)
                    else
                      (case ParseUint (params ! 0) of
                         (parsed, Some err) \<Rightarrow> ('''', None)
                       | (parsed, None) \<Rightarrow>
                           let params' = params[0 := FormatUint (parsed + 1)];
                               vals' = AList.update (param p) params' vals;
                               query = Values_Encode vals'
                           in (URL_String (uri\<lparr>RawQuery := query\<rparr>), None)))))"

text \<open>The leaf strategies have no state: as a method of the interface they return none.\<close>

definition stateless :: "('p \<Rightarrow> string \<Rightarrow> Selection \<Rightarrow> result) \<Rightarrow> 'p NextPage_method" where
  "stateless f p url doc = (f p url doc, p)"

declare resolvePath_loop.simps [simp del]
declare parseQuery.simps [simp del]
declare formatBits.simps [simp del]

section \<open>Notions the claims are stated with\<close>

text \<open>
  A base-10 non-negative integer: a non-empty string of ASCII digits, and the number it
  denotes.
\<close>

definition is_decimal :: "string \<Rightarrow> bool" where
  "is_decimal s = (s \<noteq> [] \<and> list_all is_digit s)"

definition digit_value :: "char \<Rightarrow> nat" where
  "digit_value c = of_char c - of_char CHR ''0''"

definition decimal_from :: "nat \<Rightarrow> string \<Rightarrow> nat" where
  "decimal_from n s = foldl (\<lambda>n c. 10 * n + digit_value c) n s"

definition decimal_value :: "string \<Rightarrow> nat" where
  "decimal_value s = decimal_from 0 s"

text \<open>
  A query string as a list of parameters: \<open>join_query\<close> joins the written parameters
  with \<^verbatim>\<open>&\<close>, \<open>escaped_pair\<close> writes one parameter, name and value escaped, and
  \<open>values_of\<close> reads from a list of parameters the values of one name, in their order.
\<close>

fun join_query :: "string list \<Rightarrow> string" where
  "join_query [] = ''''"
| "join_query [p] = p"
| "join_query (p # q # ps) = p @ ''&'' @ join_query (q # ps)"

definition escaped_pair :: "string \<times> string \<Rightarrow> string" where
  "escaped_pair kv = QueryEscape (fst kv) @ ''='' @ QueryEscape (snd kv)"

definition values_of :: "(string \<times> string) list \<Rightarrow> string \<Rightarrow> string list" where
  "values_of ps k = map snd (filter (\<lambda>kv. fst kv = k) ps)"

text \<open>A document whose first match of the selector \<open>s\<close> has the attribute \<open>a\<close> with value \<open>v\<close>.\<close>

definition link_document :: "string \<Rightarrow> string \<Rightarrow> string \<Rightarrow> Selection" where
  "link_document s a v =
     \<lparr>Find = (\<lambda>q. if q = s then [\<lparr>Attr = [\<lparr>Namespace = '''', Key = a, Val = v\<rparr>]\<rparr>] else [])\<rparr>"

text \<open>A document in which no selector matches.\<close>

definition empty_document :: Selection where
  "empty_document = \<lparr>Find = (\<lambda>q. [])\<rparr>"

section \<open>Notions of the proofs\<close>

text \<open>The assignment \<^verbatim>\<open>m[key] = append(m[key], value)\<close> of \<^verbatim>\<open>parseQuery\<close>.\<close>

definition Values_append :: "string \<times> string \<Rightarrow> Values \<Rightarrow> Values" where
  "Values_append kv m = AList.update (fst kv) (Values_index m (fst kv) @ [snd kv]) m"

text \<open>
  The parameters of a \<^verbatim>\<open>Values\<close> in the order in which \<^verbatim>\<open>Encode\<close> writes them: key
  by key in the given order of the keys, which \<^verbatim>\<open>Encode\<close> sorts.
\<close>

definition pairs_of_keys :: "Values \<Rightarrow> string list \<Rightarrow> (string \<times> string) list" where
  "pairs_of_keys v keys = concat (map (\<lambda>k. map (Pair k) (Values_index v k)) keys)"

definition Values_pairs :: "Values \<Rightarrow> (string \<times> string) list" where
  "Values_pairs v = pairs_of_keys v (sort (map fst v))"

text \<open>The buffer of \<^verbatim>\<open>Encode\<close> after it has written a list of parameters.\<close>

definition write_pairs :: "(string \<times> string) list \<Rightarrow> string \<Rightarrow> string" where
  "write_pairs ps buf =
     foldl (\<lambda>buf kv. (if buf \<noteq> '''' then buf @ ''&'' else buf) @ escaped_pair kv) buf ps"

text \<open>
  What holds of every \<^verbatim>\<open>Values\<close> that \<^verbatim>\<open>ParseQuery\<close> builds: a key occurs once, as in
  a Go map, and no key has an empty list of values.
\<close>

definition wf_Values :: "Values \<Rightarrow> bool" where
  "wf_Values v = (distinct (map fst v) \<and> [] \<notin> set (map snd v))"

text \<open>A path as the list of its segments, each written after a \<^verbatim>\<open>/\<close>.\<close>

definition render :: "string list \<Rightarrow> string" where
  "render st = concat (map (\<lambda>s. CHR ''/'' # s) st)"







section \<open>RFC 3986, section 5: reference resolution\<close>














section \<open>Properties\<close>

subsection \<open>LimitPages\<close>

lemma limitPages_NextPage_stop:
  "sint (limit p) \<le> sint (current p) \<Longrightarrow> limitPages_NextPage f p url doc = (('''', None), p)"
  by (simp add: limitPages_NextPage_def)

lemma limitPages_calls_stop:
  "sint (limit p) \<le> sint (current p) \<Longrightarrow>
   limitPages_calls f p inputs = (replicate (length inputs) ('''', None), p)"
  by (induction inputs) (auto simp: limitPages_NextPage_stop)

lemma sint_succ_below:
  fixes x y :: "'w::len word"
  assumes "sint x < sint y"
  shows "sint (x + 1) = sint x + 1"
proof -
  have lo: "- (2 ^ (LENGTH('w) - 1)) \<le> sint x + 1"
    using sint_ge [of x] by simp
  have hi: "sint x + 1 < 2 ^ (LENGTH('w) - 1)"
    using assms sint_lt [of y] by simp
  have "x + 1 = word_of_int (sint x + 1)"
    by simp
  then have "sint (x + 1) = signed_take_bit (LENGTH('w) - 1) (sint x + 1)"
    by (simp only: sint_sbintrunc')
  also have "\<dots> = sint x + 1"
    using lo hi by (simp add: signed_take_bit_int_eq_self)
  finally show ?thesis .
qed

lemma limitPages_NextPage_delegate:
  assumes "sint (current p) < sint (limit p)"
    and "inner_NextPage (underlying p) url doc = (r, u)"
  shows "limitPages_NextPage inner_NextPage p url doc =
           (r, p\<lparr>current := current p + 1, underlying := u\<rparr>)"
  using assms by (simp add: limitPages_NextPage_def)

text \<open>
  Claim C3. Once \<open>current \<ge> limit\<close>, a call returns \<^verbatim>\<open>("", nil)\<close> and leaves the
  whole paginator as it was: \<open>current\<close> is unchanged, and so is the state of the wrapped
  Paginator, whatever its method is (so the method was not run: the counting double of
  the witness would have counted). The same holds for every call of any sequence of
  calls. With limit 0, the first call of a fresh paginator already stops.
\<close>

theorem limit_reached_stops:
  fixes p :: "('w::len, 'p) limitPagesPaginator"
  shows "(sint (limit p) \<le> sint (current p) \<longrightarrow>
      limitPages_NextPage inner_NextPage p url doc = (('''', None), p) \<and>
      limitPages_calls inner_NextPage p inputs = (replicate (length inputs) ('''', None), p)) \<and>
   limitPages_NextPage inner_NextPage (LimitPages (0 :: 'w word) inner) url doc =
     (('''', None), LimitPages 0 inner)"
proof -
  have "sint (limit (LimitPages (0 :: 'w word) inner)) \<le> sint (current (LimitPages (0 :: 'w word) inner))"
    by (simp add: LimitPages_def)
  then show ?thesis
    by (simp add: limitPages_NextPage_stop limitPages_calls_stop)
qed

theorem limit_reached_stops_witness:
  "sint (limit \<lparr>current = 2 :: 64 word, limit = 1, underlying = 0 :: nat\<rparr>)
     \<le> sint (current \<lparr>current = 2 :: 64 word, limit = 1, underlying = 0 :: nat\<rparr>) \<and>
   limitPages_NextPage (counting_NextPage (''http://x/2'', None))
       \<lparr>current = 2 :: 64 word, limit = 1, underlying = 0\<rparr> ''http://x/1'' \<lparr>Find = \<lambda>s. []\<rparr>
     = (('''', None), \<lparr>current = 2, limit = 1, underlying = 0\<rparr>) \<and>
   limitPages_calls (counting_NextPage (''http://x/2'', None))
       \<lparr>current = 2 :: 64 word, limit = 1, underlying = 0\<rparr>
       [(''http://x/1'', \<lparr>Find = \<lambda>s. []\<rparr>), (''http://x/1'', \<lparr>Find = \<lambda>s. []\<rparr>)]
     = ([('''', None), ('''', None)], \<lparr>current = 2, limit = 1, underlying = 0\<rparr>)"
  using limit_reached_stops [of "\<lparr>current = 2 :: 64 word, limit = 1, underlying = 0 :: nat\<rparr>"
      "counting_NextPage (''http://x/2'', None)" "''http://x/1''" "\<lparr>Find = \<lambda>s. []\<rparr>"
      "[(''http://x/1'', \<lparr>Find = \<lambda>s. []\<rparr>), (''http://x/1'', \<lparr>Find = \<lambda>s. []\<rparr>)]"]
  by (simp del: limitPages_calls.simps)

text \<open>
  Claim C8. While \<open>current < limit\<close>, a call adds exactly 1 to \<open>current\<close> (as a
  signed integer: the addition cannot wrap below the limit) and returns what the
  wrapped Paginator returns, URL and error alike; the counter is incremented also
  when that result is an error.
\<close>

theorem below_limit_delegates:
  assumes "sint (current p) < sint (limit p)"
    and "inner_NextPage (underlying p) url doc = ((s, e), u)"
  shows "limitPages_NextPage inner_NextPage p url doc =
           ((s, e), p\<lparr>current := current p + 1, underlying := u\<rparr>) \<and>
         sint (current (snd (limitPages_NextPage inner_NextPage p url doc)))
           = sint (current p) + 1"
  using assms
  by (simp add: limitPages_NextPage_delegate sint_succ_below [of "current p" "limit p"])

theorem below_limit_delegates_witness:
  "sint (current (LimitPages (1 :: 64 word) (0 :: nat))) < sint (limit (LimitPages (1 :: 64 word) (0 :: nat))) \<and>
   limitPages_NextPage (counting_NextPage ('''', Some ErrSyntax))
       (LimitPages (1 :: 64 word) 0) ''http://x/1'' \<lparr>Find = \<lambda>s. []\<rparr>
     = (('''', Some ErrSyntax), \<lparr>current = 1, limit = 1, underlying = 1\<rparr>) \<and>
   sint (current (snd (limitPages_NextPage (counting_NextPage ('''', Some ErrSyntax))
       (LimitPages (1 :: 64 word) 0) ''http://x/1'' \<lparr>Find = \<lambda>s. []\<rparr>))) = 1"
proof -
  have h1: "sint (current (LimitPages (1 :: 64 word) (0 :: nat))) < sint (limit (LimitPages (1 :: 64 word) (0 :: nat)))"
    by (simp add: LimitPages_def)
  have h2: "counting_NextPage ('''', Some ErrSyntax) (underlying (LimitPages (1 :: 64 word) (0 :: nat)))
              ''http://x/1'' \<lparr>Find = \<lambda>s. []\<rparr> = (('''', Some ErrSyntax), 1)"
    by (simp add: counting_NextPage_def LimitPages_def)
  have h3: "(LimitPages (1 :: 64 word) (0 :: nat))\<lparr>current := current (LimitPages (1 :: 64 word) (0 :: nat)) + 1,
              underlying := 1\<rparr> = \<lparr>current = 1, limit = 1, underlying = 1\<rparr>"
    by (simp add: LimitPages_def)
  show ?thesis
    using h1 h3 below_limit_delegates [of "LimitPages (1 :: 64 word) (0 :: nat)"
        "counting_NextPage ('''', Some ErrSyntax)" "''http://x/1''" "\<lparr>Find = \<lambda>s. []\<rparr>"
        "''''" "Some ErrSyntax" 1, OF h1 h2]
    by simp
qed

text \<open>
  Claim C10. \<^verbatim>\<open>LimitPages\<close> stores the limit it is given, unchecked. A fresh
  paginator whose limit is zero or negative stops at every call of any sequence of calls
  and never changes (so the wrapped Paginator is not run); its results are those of a
  fresh paginator with limit 0.
\<close>

theorem nonpositive_limit_never_paginates:
  fixes lim :: "'w::len word"
  assumes "sint lim \<le> 0"
  shows "limit (LimitPages lim inner) = lim \<and>
         limitPages_calls inner_NextPage (LimitPages lim inner) inputs
           = (replicate (length inputs) ('''', None), LimitPages lim inner) \<and>
         fst (limitPages_calls inner_NextPage (LimitPages lim inner) inputs)
           = fst (limitPages_calls inner_NextPage (LimitPages (0 :: 'w word) inner) inputs)"
proof -
  have a: "sint (limit (LimitPages lim inner)) \<le> sint (current (LimitPages lim inner))"
    using assms by (simp add: LimitPages_def)
  have b: "sint (limit (LimitPages (0 :: 'w word) inner)) \<le> sint (current (LimitPages (0 :: 'w word) inner))"
    by (simp add: LimitPages_def)
  have c: "limit (LimitPages lim inner) = lim"
    by (simp add: LimitPages_def)
  show ?thesis
    unfolding limitPages_calls_stop [OF a] limitPages_calls_stop [OF b] using c by simp
qed

theorem nonpositive_limit_never_paginates_witness:
  "sint (- 3 :: 64 word) \<le> 0 \<and>
   limitPages_calls (counting_NextPage (''http://x/2'', None)) (LimitPages (- 3 :: 64 word) 0)
       [(''http://x/1'', \<lparr>Find = \<lambda>s. []\<rparr>), (''http://x/1'', \<lparr>Find = \<lambda>s. []\<rparr>)]
     = ([('''', None), ('''', None)], \<lparr>current = 0, limit = - 3, underlying = 0\<rparr>)"
proof -
  have h: "sint (- 3 :: 64 word) \<le> 0"
    by simp
  show ?thesis
    using h nonpositive_limit_never_paginates [OF h, of "0 :: nat"
        "counting_NextPage (''http://x/2'', None)"
        "[(''http://x/1'', \<lparr>Find = \<lambda>s. []\<rparr>), (''http://x/1'', \<lparr>Find = \<lambda>s. []\<rparr>)]"]
    by (simp add: LimitPages_def del: limitPages_calls.simps)
qed

subsection \<open>BySelector without a link\<close>

lemma getAttributePtr_absent: "a \<notin> Key ` set as \<Longrightarrow> getAttributePtr a as = None"
  by (induction as) auto

lemma Selection_Attr_not_found:
  "Find doc s = [] \<or> (\<exists>n ns. Find doc s = n # ns \<and> a \<notin> Key ` set (Attr n)) \<Longrightarrow>
   Selection_Attr (Find doc s) a = ('''', False)"
  by (auto simp: Selection_Attr_def getAttributePtr_absent)

text \<open>
  Claim C7. When the selector matches no element, or the first matched element has no
  attribute of the configured name, \<^verbatim>\<open>NextPage\<close> returns \<^verbatim>\<open>("", nil)\<close>, whatever
  the current URL is.
\<close>

theorem no_link_no_page:
  assumes "Find doc (sel p) = [] \<or>
           (\<exists>n ns. Find doc (sel p) = n # ns \<and> attr p \<notin> Key ` set (Attr n))"
  shows "bySelector_NextPage p uri doc = ('''', None)"
  using Selection_Attr_not_found [OF assms] by (simp add: bySelector_NextPage_def)

theorem no_link_no_page_witness:
  "(Find empty_document (sel (BySelector ''a.next'' ''href'')) = [] \<or>
    (\<exists>n ns. Find empty_document (sel (BySelector ''a.next'' ''href'')) = n # ns \<and>
       attr (BySelector ''a.next'' ''href'') \<notin> Key ` set (Attr n))) \<and>
   bySelector_NextPage (BySelector ''a.next'' ''href'') ''http://x/1'' empty_document = ('''', None) \<and>
   (Find (link_document ''a.next'' ''rel'' ''next'') (sel (BySelector ''a.next'' ''href'')) = [] \<or>
    (\<exists>n ns. Find (link_document ''a.next'' ''rel'' ''next'') (sel (BySelector ''a.next'' ''href'')) = n # ns \<and>
       attr (BySelector ''a.next'' ''href'') \<notin> Key ` set (Attr n))) \<and>
   bySelector_NextPage (BySelector ''a.next'' ''href'') ''http://x/1''
     (link_document ''a.next'' ''rel'' ''next'') = ('''', None)"
proof -
  have h1: "Find empty_document (sel (BySelector ''a.next'' ''href'')) = [] \<or>
    (\<exists>n ns. Find empty_document (sel (BySelector ''a.next'' ''href'')) = n # ns \<and>
       attr (BySelector ''a.next'' ''href'') \<notin> Key ` set (Attr n))"
    by (simp add: empty_document_def)
  have h2: "Find (link_document ''a.next'' ''rel'' ''next'') (sel (BySelector ''a.next'' ''href'')) = [] \<or>
    (\<exists>n ns. Find (link_document ''a.next'' ''rel'' ''next'') (sel (BySelector ''a.next'' ''href'')) = n # ns \<and>
       attr (BySelector ''a.next'' ''href'') \<notin> Key ` set (Attr n))"
    by (simp add: link_document_def BySelector_def)
  show ?thesis
    using h1 h2 no_link_no_page [OF h1, of "''http://x/1''"] no_link_no_page [OF h2, of "''http://x/1''"]
    by blast
qed

text \<open>
  Claim C9. The current URL is parsed only after a link was found: without a match or
  without the attribute, a URL that \<^verbatim>\<open>url.Parse\<close> rejects gives \<^verbatim>\<open>("", nil)\<close> and
  no error, and the result does not depend on the URL at all.
\<close>

theorem malformed_url_unseen_without_link:
  assumes "Find doc (sel p) = [] \<or>
           (\<exists>n ns. Find doc (sel p) = n # ns \<and> attr p \<notin> Key ` set (Attr n))"
    and "url_Parse uri = Inl err"
  shows "bySelector_NextPage p uri doc = ('''', None) \<and>
         bySelector_NextPage p uri doc = bySelector_NextPage p uri' doc"
  using Selection_Attr_not_found [OF assms(1)] by (simp add: bySelector_NextPage_def)

lemma url_Parse_colon: "url_Parse '':'' = Inl (UrlError ''parse'' '':'' MissingProtocolScheme)"
  by code_simp

lemma malformed_seen_with_link:
  "bySelector_NextPage (BySelector ''a.next'' ''href'') '':'' (link_document ''a.next'' ''href'' ''/2'')
     = ('''', Some (UrlError ''parse'' '':'' MissingProtocolScheme))"
  by code_simp

theorem malformed_url_unseen_without_link_witness:
  "(Find empty_document (sel (BySelector ''a.next'' ''href'')) = [] \<or>
    (\<exists>n ns. Find empty_document (sel (BySelector ''a.next'' ''href'')) = n # ns \<and>
       attr (BySelector ''a.next'' ''href'') \<notin> Key ` set (Attr n))) \<and>
   url_Parse '':'' = Inl (UrlError ''parse'' '':'' MissingProtocolScheme) \<and>
   bySelector_NextPage (BySelector ''a.next'' ''href'') '':'' empty_document = ('''', None)"
proof -
  have h1: "Find empty_document (sel (BySelector ''a.next'' ''href'')) = [] \<or>
    (\<exists>n ns. Find empty_document (sel (BySelector ''a.next'' ''href'')) = n # ns \<and>
       attr (BySelector ''a.next'' ''href'') \<notin> Key ` set (Attr n))"
    by (simp add: empty_document_def)
  show ?thesis
    using h1 url_Parse_colon malformed_url_unseen_without_link [OF h1 url_Parse_colon]
    by blast
qed

subsection \<open>Parsing and printing unsigned integers\<close>

lemma ParseUint_loop_not_digits:
  "\<not> list_all is_digit s \<Longrightarrow> snd (ParseUint_loop s n) \<noteq> None"
proof (induction s arbitrary: n)
  case Nil
  then show ?case by simp
next
  case (Cons c cs)
  show ?case
  proof (cases "is_digit c")
    case True
    with Cons.prems have "\<not> list_all is_digit cs" by simp
    from Cons.IH [OF this] show ?thesis
      by (simp add: Let_def)
  next
    case False
    then show ?thesis
      by (simp add: Let_def)
  qed
qed

lemma ParseUint_not_decimal: "\<not> is_decimal s \<Longrightarrow> snd (ParseUint s) \<noteq> None"
  using ParseUint_loop_not_digits [of s 0] by (auto simp: ParseUint_def is_decimal_def)

lemma digit_value_lt: "is_digit c \<Longrightarrow> digit_value c < 10"
  unfolding is_digit_def digit_value_def less_eq_char_def by auto

lemma decimal_from_ge: "n \<le> decimal_from n s"
  unfolding decimal_from_def
proof (induction s arbitrary: n)
  case Nil
  then show ?case by simp
next
  case (Cons c cs)
  have "n \<le> 10 * n + digit_value c" by simp
  also have "\<dots> \<le> foldl (\<lambda>n c. 10 * n + digit_value c) (10 * n + digit_value c) cs"
    by (rule Cons.IH)
  finally show ?case by simp
qed

lemma decimal_from_Cons: "decimal_from n (c # cs) = decimal_from (10 * n + digit_value c) cs"
  by (simp add: decimal_from_def)

lemma ParseUint_loop_step:
  assumes "is_digit c"
  shows "ParseUint_loop (c # cs) n =
         (if 10 * unat n + digit_value c < 2 ^ 64
          then ParseUint_loop cs (of_nat (10 * unat n + digit_value c))
          else (maxVal, Some ErrRange))"
proof -
  have d: "digit_value c < 10"
    using assms by (rule digit_value_lt)
  have ud: "unat (of_nat (digit_value c) :: 64 word) = digit_value c"
    using d by (simp add: unat_of_nat)
  have dd: "(of_char c - 48 :: nat) = digit_value c"
    by (simp add: digit_value_def)
  show ?thesis
  proof (cases "n \<ge> cutoff")
    case True
    then have "unat cutoff \<le> unat n"
      by (simp add: word_le_nat_alt)
    then have "\<not> 10 * unat n + digit_value c < 2 ^ 64"
      by (simp add: cutoff_def)
    with True assms d show ?thesis
      by (simp add: Let_def dd)
  next
    case False
    then have lt: "unat n < unat cutoff"
      by (simp add: word_le_nat_alt)
    then have m: "10 * unat n < 2 ^ 64"
      by (simp add: cutoff_def)
    have um: "unat (n * 10) = 10 * unat n"
      using m by (simp add: unat_word_ariths)
    have ua: "unat (n * 10 + of_nat (digit_value c)) = (10 * unat n + digit_value c) mod 2 ^ 64"
      unfolding unat_word_ariths(1) [of "n * 10" "of_nat (digit_value c)"] um ud by simp
    have wrap: "n * 10 + of_nat (digit_value c) < n * 10 \<longleftrightarrow> \<not> 10 * unat n + digit_value c < 2 ^ 64"
    proof
      assume "n * 10 + of_nat (digit_value c) < n * 10"
      then have "(10 * unat n + digit_value c) mod 2 ^ 64 < 10 * unat n"
        by (simp add: word_less_nat_alt ua um)
      then show "\<not> 10 * unat n + digit_value c < 2 ^ 64"
        by auto
    next
      assume a: "\<not> 10 * unat n + digit_value c < 2 ^ 64"
      have "10 * unat n + digit_value c < 2 * 2 ^ 64"
        using m d by simp
      with a have "(10 * unat n + digit_value c) mod 2 ^ 64 = 10 * unat n + digit_value c - 2 ^ 64"
        by (simp add: mod_if)
      with a d show "n * 10 + of_nat (digit_value c) < n * 10"
        by (simp add: word_less_nat_alt ua um)
    qed
    have nm: "\<not> (n * 10 + of_nat (digit_value c) > maxVal)"
      using unsigned_less [of "n * 10 + of_nat (digit_value c)", where ?'a = nat]
      by (simp add: maxVal_def word_less_nat_alt not_less)
    have eq: "(of_nat (10 * unat n + digit_value c) :: 64 word) = n * 10 + of_nat (digit_value c)"
      by simp
    from False assms d show ?thesis
      by (simp add: Let_def dd wrap nm eq del: of_nat_add of_nat_mult)
  qed
qed


lemma ParseUint_loop_digits:
  "list_all is_digit s \<Longrightarrow>
   ParseUint_loop s n =
     (if decimal_from (unat n) s < 2 ^ 64 then (of_nat (decimal_from (unat n) s), None)
      else (maxVal, Some ErrRange))"
proof (induction s arbitrary: n)
  case Nil
  have "unat n < 2 ^ 64"
    using unsigned_less [of n, where ?'a = nat] by simp
  then show ?case
    by (simp add: decimal_from_def)
next
  case (Cons c cs)
  then have c: "is_digit c" and cs: "list_all is_digit cs"
    by simp_all
  let ?m = "10 * unat n + digit_value c"
  show ?case
  proof (cases "?m < 2 ^ 64")
    case True
    then have u: "unat (of_nat ?m :: 64 word) = ?m"
      by (simp add: unat_of_nat del: of_nat_add of_nat_mult)
    show ?thesis
      unfolding ParseUint_loop_step [OF c] decimal_from_Cons Cons.IH [OF cs] u
      using True by simp
  next
    case False
    moreover have "?m \<le> decimal_from ?m cs"
      by (rule decimal_from_ge)
    ultimately have "\<not> decimal_from ?m cs < 2 ^ 64"
      by simp
    with False show ?thesis
      unfolding ParseUint_loop_step [OF c] decimal_from_Cons by simp
  qed
qed

lemma ParseUint_decimal:
  "is_decimal s \<Longrightarrow>
   ParseUint s =
     (if decimal_value s < 2 ^ 64 then (of_nat (decimal_value s), None)
      else (maxVal, Some ErrRange))"
  using ParseUint_loop_digits [of s 0]
  by (simp add: is_decimal_def ParseUint_def decimal_value_def)

lemma digit_table:
  "k < 10 \<Longrightarrow> is_digit (''0123456789'' ! k) \<and> digit_value (''0123456789'' ! k) = k"
proof -
  assume "k < 10"
  then consider "k = 0" | "k = 1" | "k = 2" | "k = 3" | "k = 4" | "k = 5" | "k = 6" | "k = 7"
    | "k = 8" | "k = 9"
    by atomize_elim arith
  then show ?thesis
    by cases (simp_all add: is_digit_def digit_value_def)
qed

lemma decimal_value_snoc:
  "decimal_value (s @ [c]) = 10 * decimal_value s + digit_value c"
  by (simp add: decimal_value_def decimal_from_def)

lemma formatBits_decimal:
  "is_decimal (formatBits u) \<and> decimal_value (formatBits u) = unat u"
proof (induction u rule: formatBits.induct)
  case (1 u)
  show ?case
  proof (cases "u < 10")
    case True
    then have k: "unat u < 10"
      by (simp add: word_less_nat_alt)
    have f: "formatBits u = [''0123456789'' ! unat u]"
      using True by (subst formatBits.simps) simp
    show ?thesis
      using digit_table [OF k] unfolding f
      by (simp add: is_decimal_def decimal_value_def decimal_from_def)
  next
    case False
    have k: "unat (u mod 10) < 10"
      by (simp add: unat_mod)
    have f: "formatBits u = formatBits (u div 10) @ [''0123456789'' ! unat (u mod 10)]"
      using False by (subst formatBits.simps) simp
    have "unat u = 10 * unat (u div 10) + unat (u mod 10)"
      by (simp add: unat_div unat_mod)
    then show ?thesis
      using digit_table [OF k] "1.IH" [OF False] unfolding f
      by (simp add: is_decimal_def decimal_value_snoc)
  qed
qed

lemma formatBits_no_leading_zero:
  "formatBits u = ''0'' \<or> hd (formatBits u) \<noteq> CHR ''0''"
proof (induction u rule: formatBits.induct)
  case (1 u)
  show ?case
  proof (cases "u < 10")
    case True
    then have k: "unat u < 10"
      by (simp add: word_less_nat_alt)
    have f: "formatBits u = [''0123456789'' ! unat u]"
      using True by (subst formatBits.simps) simp
    from k consider "unat u = 0" | "unat u = 1" | "unat u = 2" | "unat u = 3" | "unat u = 4"
      | "unat u = 5" | "unat u = 6" | "unat u = 7" | "unat u = 8" | "unat u = 9"
      by atomize_elim arith
    then show ?thesis
      unfolding f by cases simp_all
  next
    case False
    have f: "formatBits u = formatBits (u div 10) @ [''0123456789'' ! unat (u mod 10)]"
      using False by (subst formatBits.simps) simp
    have "10 \<le> unat u"
      using False by (simp add: word_less_nat_alt)
    then have "unat (u div 10) \<noteq> 0"
      by (simp add: unat_div)
    then have "decimal_value (formatBits (u div 10)) \<noteq> 0"
      using formatBits_decimal [of "u div 10"] by simp
    then have nz: "formatBits (u div 10) \<noteq> ''0''"
      by (auto simp: decimal_value_def decimal_from_def digit_value_def)
    have ne: "formatBits (u div 10) \<noteq> []"
      using formatBits_decimal [of "u div 10"] by (simp add: is_decimal_def)
    from "1.IH" [OF False] nz ne show ?thesis
      unfolding f by simp
  qed
qed

subsection \<open>ByQueryParam: when the parameter cannot be incremented\<close>

text \<open>
  Claim C6, amended. For a URL that \<^verbatim>\<open>url.Parse\<close> accepts and whose query
  \<^verbatim>\<open>url.ParseQuery\<close> accepts, when the configured parameter is absent, has no value,
  or its first value is not a non-empty string of decimal digits, \<^verbatim>\<open>NextPage\<close> returns
  \<^verbatim>\<open>("", nil)\<close>: no URL and no error.
\<close>

theorem missing_or_nonnumeric_param_stops:
  assumes "url_Parse u = Inr uri"
    and "ParseQuery (RawQuery uri) = (vals, None)"
    and "map_of vals (param p) = None \<or> map_of vals (param p) = Some [] \<or>
         (\<exists>v vs. map_of vals (param p) = Some (v # vs) \<and> \<not> is_decimal v)"
  shows "byQueryParam_NextPage p u doc = ('''', None)"
proof -
  from assms(3) consider "map_of vals (param p) = None" | "map_of vals (param p) = Some []"
    | v vs where "map_of vals (param p) = Some (v # vs)" "\<not> is_decimal v"
    by atomize_elim auto
  then show ?thesis
  proof cases
    case 1
    with assms(1,2) show ?thesis
      by (simp add: byQueryParam_NextPage_def)
  next
    case 2
    with assms(1,2) show ?thesis
      by (simp add: byQueryParam_NextPage_def)
  next
    case 3
    from ParseUint_not_decimal [OF 3(2)] obtain n e where "ParseUint v = (n, Some e)"
      by (cases "ParseUint v") auto
    with 3(1) assms(1,2) show ?thesis
      by (simp add: byQueryParam_NextPage_def)
  qed
qed

lemma url_Parse_page_abc:
  "url_Parse ''http://x/?page=abc'' =
     Inr (new_URL\<lparr>Scheme := ''http'', Host := ''x'', Path := ''/'', RawQuery := ''page=abc''\<rparr>)"
  by code_simp

lemma ParseQuery_page_abc: "ParseQuery ''page=abc'' = ([(''page'', [''abc''])], None)"
  by code_simp

lemma url_Parse_no_query:
  "url_Parse ''http://x/'' = Inr (new_URL\<lparr>Scheme := ''http'', Host := ''x'', Path := ''/''\<rparr>)"
  by code_simp

lemma ParseQuery_empty: "ParseQuery '''' = ([], None)"
  by code_simp

theorem missing_or_nonnumeric_param_stops_witness:
  "byQueryParam_NextPage (ByQueryParam ''page'') ''http://x/?page=abc'' empty_document = ('''', None) \<and>
   byQueryParam_NextPage (ByQueryParam ''page'') ''http://x/'' empty_document = ('''', None)"
proof -
  have a: "ParseQuery (RawQuery (new_URL\<lparr>Scheme := ''http'', Host := ''x'', Path := ''/'',
             RawQuery := ''page=abc''\<rparr>)) = ([(''page'', [''abc''])], None)"
    using ParseQuery_page_abc by simp
  have b: "map_of [(''page'', [''abc''])] (param (ByQueryParam ''page'')) = None \<or>
           map_of [(''page'', [''abc''])] (param (ByQueryParam ''page'')) = Some [] \<or>
           (\<exists>v vs. map_of [(''page'', [''abc''])] (param (ByQueryParam ''page'')) = Some (v # vs) \<and>
              \<not> is_decimal v)"
    by (simp add: ByQueryParam_def is_decimal_def is_digit_def)
  have c: "ParseQuery (RawQuery (new_URL\<lparr>Scheme := ''http'', Host := ''x'', Path := ''/''\<rparr>)) = ([], None)"
    using ParseQuery_empty by (simp add: new_URL_def)
  have d: "map_of [] (param (ByQueryParam ''page'')) = None \<or>
           map_of [] (param (ByQueryParam ''page'')) = Some [] \<or>
           (\<exists>v vs. map_of [] (param (ByQueryParam ''page'')) = Some (v # vs) \<and> \<not> is_decimal v)"
    by simp
  show ?thesis
    using missing_or_nonnumeric_param_stops [OF url_Parse_page_abc a b]
      missing_or_nonnumeric_param_stops [OF url_Parse_no_query c d]
    by simp
qed

text \<open>
  Claim C6 as stated fails. A \<^verbatim>\<open>;\<close> is allowed in the query of a URL, but
  \<^verbatim>\<open>url.ParseQuery\<close> rejects it, and \<^verbatim>\<open>NextPage\<close> returns that error before it looks
  the parameter up: so it does for \<^verbatim>\<open>http://x/?a=1;b=2\<close>, where the parameter
  \<^verbatim>\<open>page\<close> is absent, and for \<^verbatim>\<open>http://x/?page=abc;x=1\<close>, where its value is not a
  number. And \<^verbatim>\<open>http://x/?page=abc&q=%zz\<close>, which \<^verbatim>\<open>url.Parse\<close> accepts, returns the
  error of the escape \<^verbatim>\<open>%zz\<close> that \<^verbatim>\<open>url.ParseQuery\<close> cannot decode.
\<close>

theorem rejected_query_is_an_error_counterexample:
  "byQueryParam_NextPage (ByQueryParam ''page'') ''http://x/?a=1;b=2'' empty_document
     = ('''', Some InvalidSemicolon) \<and>
   byQueryParam_NextPage (ByQueryParam ''page'') ''http://x/?page=abc;x=1'' empty_document
     = ('''', Some InvalidSemicolon) \<and>
   byQueryParam_NextPage (ByQueryParam ''page'') ''http://x/?page=abc&q=%zz'' empty_document
     = ('''', Some (EscapeError ''%zz''))"
  by code_simp

subsection \<open>Encoding a query and parsing it again\<close>

lemma below_16_cases:
  assumes "k < (16 :: nat)"
  obtains "k = 0" | "k = 1" | "k = 2" | "k = 3" | "k = 4" | "k = 5" | "k = 6" | "k = 7"
    | "k = 8" | "k = 9" | "k = 10" | "k = 11" | "k = 12" | "k = 13" | "k = 14" | "k = 15"
  using assms by atomize_elim arith

lemma upperhex_props:
  assumes "k < 16"
  shows "ishex (upperhex k)" and "unhex (upperhex k) = k"
    and "upperhex k \<notin> set ''&=;''"
  using assms
  by (cases k rule: below_16_cases; simp add: upperhex_def ishex_def unhex_def is_digit_def)+

lemma shouldEscape_query_special:
  "shouldEscape CHR ''%'' encodeQueryComponent"
  "shouldEscape CHR ''+'' encodeQueryComponent"
  "shouldEscape CHR ''&'' encodeQueryComponent"
  "shouldEscape CHR ''='' encodeQueryComponent"
  "shouldEscape CHR '';'' encodeQueryComponent"
  by (simp_all add: shouldEscape_def is_lower_def is_upper_def is_digit_def)

lemma char_of_hex_halves: "char_of (of_char c div 16 * 16 + of_char c mod (16 :: nat)) = c"
  by simp

lemma unescape_escape_byte:
  "unescape (escape_byte c encodeQueryComponent @ rest) encodeQueryComponent =
     (case unescape rest encodeQueryComponent of Inl e \<Rightarrow> Inl e | Inr t \<Rightarrow> Inr (c # t))"
proof -
  have hi: "of_char c div 16 < (16 :: nat)"
    by (rule less_mult_imp_div_less) simp
  have lo: "of_char c mod 16 < (16 :: nat)"
    by simp
  consider "c = CHR '' ''" | "c \<noteq> CHR '' ''" "shouldEscape c encodeQueryComponent"
    | "c \<noteq> CHR '' ''" "\<not> shouldEscape c encodeQueryComponent"
    by blast
  then show ?thesis
  proof cases
    case 1
    then show ?thesis
      by (cases "unescape rest encodeQueryComponent") (simp_all add: escape_byte_def)
  next
    case 2
    then show ?thesis
      using upperhex_props(1,2) [OF hi] upperhex_props(1,2) [OF lo]
      by (cases "unescape rest encodeQueryComponent")
        (simp_all add: escape_byte_def unhex2_def char_of_hex_halves)
  next
    case 3
    then have "c \<noteq> CHR ''%''" "c \<noteq> CHR ''+''"
      using shouldEscape_query_special(1,2) by auto
    with 3 show ?thesis
      by (cases "unescape rest encodeQueryComponent") (simp_all add: escape_byte_def)
  qed
qed

lemma QueryUnescape_QueryEscape: "QueryUnescape (QueryEscape s) = Inr s"
  unfolding QueryUnescape_def QueryEscape_def escape_def
  by (induction s) (simp_all add: unescape_escape_byte)

lemma escape_byte_no_separator:
  "x \<in> set (escape_byte c encodeQueryComponent) \<Longrightarrow> x \<notin> set ''&=;''"
proof -
  assume x: "x \<in> set (escape_byte c encodeQueryComponent)"
  have hi: "of_char c div 16 < (16 :: nat)"
    by (rule less_mult_imp_div_less) simp
  have lo: "of_char c mod 16 < (16 :: nat)"
    by simp
  consider "c = CHR '' ''" | "c \<noteq> CHR '' ''" "shouldEscape c encodeQueryComponent"
    | "c \<noteq> CHR '' ''" "\<not> shouldEscape c encodeQueryComponent"
    by blast
  then show ?thesis
  proof cases
    case 1
    with x show ?thesis
      by (simp add: escape_byte_def)
  next
    case 2
    with x have "x = CHR ''%'' \<or> x = upperhex (of_char c div 16) \<or> x = upperhex (of_char c mod 16)"
      by (simp add: escape_byte_def)
    then show ?thesis
      using upperhex_props(3) [OF hi] upperhex_props(3) [OF lo] by auto
  next
    case 3
    with x have "x = c"
      by (simp add: escape_byte_def)
    with 3 show ?thesis
      using shouldEscape_query_special(3,4,5) by auto
  qed
qed

lemma QueryEscape_no_separator: "x \<in> set (QueryEscape s) \<Longrightarrow> x \<notin> set ''&=;''"
  unfolding QueryEscape_def escape_def
  using escape_byte_no_separator by auto

lemma IndexByte_append_sep: "sep \<notin> set a \<Longrightarrow> IndexByte (a @ sep # b) sep = Some (length a)"
  by (induction a) auto

lemma IndexByte_absent: "sep \<notin> set a \<Longrightarrow> IndexByte a sep = None"
  by (induction a) auto

lemma Cut_at_sep: "sep \<notin> set a \<Longrightarrow> Cut (a @ sep # b) sep = (a, b, True)"
  by (simp add: Cut_def IndexByte_append_sep)

lemma Cut_no_sep: "sep \<notin> set a \<Longrightarrow> Cut a sep = (a, '''', False)"
  by (simp add: Cut_def IndexByte_absent)

lemma Contains_iff: "Contains s c \<longleftrightarrow> c \<in> set s"
  by (induction s) (auto simp: Contains_def)

lemma escaped_pair_chars:
  "CHR ''&'' \<notin> set (escaped_pair kv)" "CHR '';'' \<notin> set (escaped_pair kv)" "escaped_pair kv \<noteq> []"
  using QueryEscape_no_separator [of "CHR ''&''"] QueryEscape_no_separator [of "CHR '';''"]
  by (auto simp: escaped_pair_def)

lemma Cut_escaped_pair:
  "Cut (escaped_pair kv) CHR ''='' = (QueryEscape (fst kv), QueryEscape (snd kv), True)"
proof -
  have "CHR ''='' \<notin> set (QueryEscape (fst kv))"
    using QueryEscape_no_separator [of "CHR ''=''"] by auto
  then show ?thesis
    unfolding escaped_pair_def by (simp add: Cut_at_sep)
qed

lemma parseQuery_empty: "parseQuery m err '''' = (m, err)"
  by (subst parseQuery.simps) simp

lemma parseQuery_pair_aux:
  assumes "Cut query CHR ''&'' = (escaped_pair kv, rest, found)" and "query \<noteq> []"
  shows "parseQuery m err query = parseQuery (Values_append kv m) err rest"
  using assms escaped_pair_chars [of kv]
  by (subst parseQuery.simps)
    (simp add: Contains_iff Cut_escaped_pair QueryUnescape_QueryEscape Values_append_def)

lemma parseQuery_last_pair: "parseQuery m err (escaped_pair kv) = (Values_append kv m, err)"
  using parseQuery_pair_aux [of "escaped_pair kv" kv "''''" False m err]
    escaped_pair_chars [of kv]
  by (simp add: Cut_no_sep parseQuery_empty)

lemma parseQuery_pair:
  "parseQuery m err (escaped_pair kv @ CHR ''&'' # rest) = parseQuery (Values_append kv m) err rest"
  using parseQuery_pair_aux [of "escaped_pair kv @ CHR ''&'' # rest" kv rest True m err]
    escaped_pair_chars [of kv]
  by (simp add: Cut_at_sep)

lemma parseQuery_join:
  "parseQuery m err (join_query (map escaped_pair ps)) = (fold Values_append ps m, err)"
proof (induction ps arbitrary: m)
  case Nil
  then show ?case by (simp add: parseQuery_empty)
next
  case (Cons kv ps)
  show ?case
  proof (cases ps)
    case Nil
    then show ?thesis by (simp add: parseQuery_last_pair)
  next
    case (Cons kv' ps')
    then show ?thesis
      using Cons.IH [of "Values_append kv m"] by (simp add: parseQuery_pair)
  qed
qed

lemma Encode_values_write:
  "Encode_values (QueryEscape k) vs buf = write_pairs (map (Pair k) vs) buf"
  by (induction vs arbitrary: buf) (simp_all add: write_pairs_def escaped_pair_def)

lemma Encode_keys_write: "Encode_keys v keys buf = write_pairs (pairs_of_keys v keys) buf"
proof (induction keys arbitrary: buf)
  case Nil
  then show ?case by (simp add: write_pairs_def pairs_of_keys_def)
next
  case (Cons k keys)
  then show ?case
    by (simp add: Encode_values_write) (simp add: write_pairs_def pairs_of_keys_def)
qed

lemma join_query_Cons: "join_query (x # xs) = x @ concat (map (\<lambda>y. CHR ''&'' # y) xs)"
  by (induction xs arbitrary: x) simp_all

lemma write_pairs_nonempty:
  "buf \<noteq> [] \<Longrightarrow>
   write_pairs ps buf = buf @ concat (map (\<lambda>kv. CHR ''&'' # escaped_pair kv) ps)"
  by (induction ps arbitrary: buf) (simp_all add: write_pairs_def)

lemma write_pairs_join: "write_pairs ps '''' = join_query (map escaped_pair ps)"
proof (cases ps)
  case Nil
  then show ?thesis by (simp add: write_pairs_def)
next
  case (Cons kv ps')
  have "write_pairs (kv # ps') '''' = write_pairs ps' (escaped_pair kv)"
    by (simp add: write_pairs_def)
  also have "\<dots> = escaped_pair kv @ concat (map (\<lambda>kv. CHR ''&'' # escaped_pair kv) ps')"
    using escaped_pair_chars(3) by (rule write_pairs_nonempty)
  finally show ?thesis
    using Cons by (simp add: join_query_Cons comp_def)
qed

lemma Values_Encode_join: "Values_Encode v = join_query (map escaped_pair (Values_pairs v))"
  by (simp add: Values_Encode_def Encode_keys_write write_pairs_join Values_pairs_def)

lemma Values_index_append:
  "Values_index (Values_append kv m) k =
     (if k = fst kv then Values_index m k @ [snd kv] else Values_index m k)"
  by (simp add: Values_index_def Values_append_def update_conv')

lemma map_of_Values_append:
  "map_of (Values_append kv m) = (map_of m)(fst kv \<mapsto> Values_index m (fst kv) @ [snd kv])"
  by (simp add: Values_append_def update_conv')

lemma values_of_Cons:
  "values_of (kv # ps) k = (if fst kv = k then snd kv # values_of ps k else values_of ps k)"
  by (simp add: values_of_def)

lemma map_of_fold_append:
  "map_of (fold Values_append ps m) k =
     (if values_of ps k = [] then map_of m k else Some (Values_index m k @ values_of ps k))"
proof (induction ps arbitrary: m)
  case Nil
  then show ?case by (simp add: values_of_def)
next
  case (Cons kv ps)
  show ?case
    unfolding fold_simps Cons.IH values_of_Cons
    by (simp add: Values_index_append map_of_Values_append)
qed

lemma values_of_append: "values_of (ps @ qs) k = values_of ps k @ values_of qs k"
  by (simp add: values_of_def)

lemma values_of_one_key: "values_of (map (Pair k') vs) k = (if k' = k then vs else [])"
  by (induction vs) (simp_all add: values_of_def comp_def)

lemma values_of_pairs_of_keys:
  "distinct keys \<Longrightarrow>
   values_of (pairs_of_keys v keys) k = (if k \<in> set keys then Values_index v k else [])"
proof (induction keys)
  case Nil
  then show ?case by (simp add: pairs_of_keys_def values_of_def)
next
  case (Cons k' keys)
  have "pairs_of_keys v (k' # keys) = map (Pair k') (Values_index v k') @ pairs_of_keys v keys"
    by (simp add: pairs_of_keys_def)
  with Cons show ?case
    by (auto simp: values_of_append values_of_one_key)
qed

lemma values_of_Values_pairs:
  "distinct (map fst v) \<Longrightarrow> values_of (Values_pairs v) k = Values_index v k"
proof -
  assume d: "distinct (map fst v)"
  have "k \<notin> fst ` set v \<Longrightarrow> Values_index v k = []"
    by (simp add: Values_index_def map_of_eq_None_iff [THEN iffD2])
  then show ?thesis
    using d by (auto simp: Values_pairs_def values_of_pairs_of_keys)
qed

lemma sorted_keys_pairs_of_keys: "sorted keys \<Longrightarrow> sorted (map fst (pairs_of_keys v keys))"
proof (induction keys)
  case Nil
  then show ?case by (simp add: pairs_of_keys_def)
next
  case (Cons k keys)
  have e: "pairs_of_keys v (k # keys) = map (Pair k) (Values_index v k) @ pairs_of_keys v keys"
    by (simp add: pairs_of_keys_def)
  have s: "set (map fst (pairs_of_keys v keys)) \<subseteq> set keys"
    by (auto simp: pairs_of_keys_def)
  have "sorted (map fst (map (Pair k) (Values_index v k)))"
    by (simp add: comp_def sorted_replicate map_replicate_const)
  with Cons s show ?case
    unfolding e by (auto simp: sorted_append comp_def)
qed

lemma sorted_Values_pairs: "sorted (map fst (Values_pairs v))"
  by (simp add: Values_pairs_def sorted_keys_pairs_of_keys)

lemma ParseQuery_Values_Encode:
  assumes "wf_Values v"
  shows "snd (ParseQuery (Values_Encode v)) = None"
    and "map_of (fst (ParseQuery (Values_Encode v))) = map_of v"
proof -
  have p: "ParseQuery (Values_Encode v) = (fold Values_append (Values_pairs v) [], None)"
    by (simp add: ParseQuery_def Values_Encode_join parseQuery_join)
  then show "snd (ParseQuery (Values_Encode v)) = None"
    by simp
  have d: "distinct (map fst v)" and ne: "[] \<notin> set (map snd v)"
    using assms by (simp_all add: wf_Values_def)
  have "map_of (fold Values_append (Values_pairs v) []) k = map_of v k" for k
  proof (cases "map_of v k")
    case None
    then show ?thesis
      by (simp add: map_of_fold_append values_of_Values_pairs [OF d] Values_index_def)
  next
    case (Some vs)
    then have m: "(k, vs) \<in> set v"
      by (rule map_of_SomeD)
    have "vs \<noteq> []"
    proof
      assume "vs = []"
      with m have "[] \<in> snd ` set v"
        by force
      with ne show False
        by simp
    qed
    with Some show ?thesis
      by (simp add: map_of_fold_append values_of_Values_pairs [OF d] Values_index_def)
  qed
  then show "map_of (fst (ParseQuery (Values_Encode v))) = map_of v"
    unfolding p by auto
qed

lemma snd_update_subset:
  "set (map snd (AList.update k vs m)) \<subseteq> insert vs (set (map snd m))"
  by (induction m) auto

lemma wf_update:
  assumes "wf_Values m" and "vs \<noteq> []"
  shows "wf_Values (AList.update k vs m)"
proof -
  have "[] \<notin> set (map snd (AList.update k vs m))"
  proof
    assume "[] \<in> set (map snd (AList.update k vs m))"
    then have "[] \<in> insert vs (set (map snd m))"
      using snd_update_subset by (rule rev_subsetD)
    with assms show False
      by (simp add: wf_Values_def)
  qed
  moreover have "distinct (map fst (AList.update k vs m))"
    using assms(1) by (simp add: wf_Values_def distinct_update)
  ultimately show ?thesis
    unfolding wf_Values_def by (rule conjI [rotated])
qed

lemma wf_Values_append: "wf_Values m \<Longrightarrow> wf_Values (Values_append kv m)"
  unfolding Values_append_def by (rule wf_update) simp_all

lemma wf_parseQuery: "wf_Values m \<Longrightarrow> wf_Values (fst (parseQuery m err query))"
proof (induction m err query rule: parseQuery.induct)
  case (1 m err query)
  show ?case
    using 1
    by (subst parseQuery.simps)
      (auto split: prod.splits sum.splits simp: wf_update)
qed

lemma wf_ParseQuery: "wf_Values (fst (ParseQuery query))"
  unfolding ParseQuery_def by (rule wf_parseQuery) (simp add: wf_Values_def)

subsection \<open>ByQueryParam: the incremented URL\<close>

lemma byQueryParam_NextPage_increment:
  assumes "url_Parse u = Inr uri"
    and "ParseQuery (RawQuery uri) = (vals, None)"
    and "map_of vals (param p) = Some (v # vs)"
    and "ParseUint v = (n, None)"
  shows "byQueryParam_NextPage p u doc =
           (URL_String (uri\<lparr>RawQuery :=
              Values_Encode (AList.update (param p) (FormatUint (n + 1) # vs) vals)\<rparr>), None)"
  using assms by (simp add: byQueryParam_NextPage_def)

lemma wf_incremented:
  assumes "ParseQuery q = (vals, e)"
  shows "wf_Values (AList.update k (x # xs) vals)"
proof -
  have "wf_Values vals"
    using wf_ParseQuery [of q] assms by simp
  then show ?thesis
    by (rule wf_update) simp
qed

lemma FormatUint_successor:
  assumes "n + 1 < 2 ^ 64"
  shows "is_decimal (FormatUint (of_nat n + 1))"
    and "decimal_value (FormatUint (of_nat n + 1)) = n + 1"
    and "FormatUint (of_nat n + 1) = ''0'' \<or> hd (FormatUint (of_nat n + 1)) \<noteq> CHR ''0''"
proof -
  have "(of_nat n + 1 :: 64 word) = of_nat (n + 1)"
    by simp
  then have "unat (of_nat n + 1 :: 64 word) = n + 1"
    using assms by (simp add: unat_of_nat del: of_nat_add of_nat_Suc)
  then show "is_decimal (FormatUint (of_nat n + 1))"
    and "decimal_value (FormatUint (of_nat n + 1)) = n + 1"
    and "FormatUint (of_nat n + 1) = ''0'' \<or> hd (FormatUint (of_nat n + 1)) \<noteq> CHR ''0''"
    using formatBits_decimal [of "of_nat n + 1"] formatBits_no_leading_zero [of "of_nat n + 1"]
    by (simp_all add: FormatUint_def)
qed

lemma increment_general:
  assumes "url_Parse u = Inr uri"
    and "ParseQuery (RawQuery uri) = (vals, None)"
    and "map_of vals (param p) = Some (v # vs)"
    and "is_decimal v"
    and "decimal_value v + 1 < 2 ^ 64"
  shows "\<exists>v' vals'.
           byQueryParam_NextPage p u doc =
             (URL_String (uri\<lparr>RawQuery := Values_Encode vals'\<rparr>), None) \<and>
           is_decimal v' \<and> decimal_value v' = decimal_value v + 1 \<and>
           (v' = ''0'' \<or> hd v' \<noteq> CHR ''0'') \<and>
           map_of vals' = (map_of vals)(param p \<mapsto> v' # vs) \<and>
           snd (ParseQuery (Values_Encode vals')) = None \<and>
           map_of (fst (ParseQuery (Values_Encode vals'))) = map_of vals'"
proof -
  let ?n = "decimal_value v"
  let ?v' = "FormatUint (of_nat ?n + 1)"
  let ?vals' = "AList.update (param p) (?v' # vs) vals"
  have "?n < 2 ^ 64"
    using assms(5) by simp
  then have pu: "ParseUint v = (of_nat ?n, None)"
    using ParseUint_decimal [OF assms(4)] by simp
  have wf: "wf_Values ?vals'"
    using assms(2) by (rule wf_incremented)
  have "byQueryParam_NextPage p u doc = (URL_String (uri\<lparr>RawQuery := Values_Encode ?vals'\<rparr>), None)"
    using assms(1,2,3) pu by (rule byQueryParam_NextPage_increment)
  moreover have "map_of ?vals' = (map_of vals)(param p \<mapsto> ?v' # vs)"
    by (rule update_conv')
  ultimately show ?thesis
    using FormatUint_successor [OF assms(5)] ParseQuery_Values_Encode [OF wf]
    by blast
qed

text \<open>
  Claim C5, amended. For a URL that \<^verbatim>\<open>url.Parse\<close> and \<^verbatim>\<open>url.ParseQuery\<close> accept and
  whose first value of the parameter is a digit string of value \<open>n\<close> with
  \<open>n + 1 < 2^64\<close>, \<^verbatim>\<open>NextPage\<close> returns the parsed URL printed with a new query. The
  new query parses without error to the old parameters with one change: the first value
  of the parameter is the decimal string of \<open>n + 1\<close> (no leading zero); its further
  values are as before. \<^verbatim>\<open>http://x/?page=3\<close> gives \<^verbatim>\<open>http://x/?page=4\<close>.
\<close>

theorem increments_first_value:
  "(url_Parse u = Inr uri \<and> ParseQuery (RawQuery uri) = (vals, None) \<and>
    map_of vals (param p) = Some (v # vs) \<and> is_decimal v \<and> decimal_value v + 1 < 2 ^ 64 \<longrightarrow>
    (\<exists>v' vals'.
       byQueryParam_NextPage p u doc =
         (URL_String (uri\<lparr>RawQuery := Values_Encode vals'\<rparr>), None) \<and>
       is_decimal v' \<and> decimal_value v' = decimal_value v + 1 \<and>
       (v' = ''0'' \<or> hd v' \<noteq> CHR ''0'') \<and>
       map_of vals' = (map_of vals)(param p \<mapsto> v' # vs) \<and>
       snd (ParseQuery (Values_Encode vals')) = None \<and>
       map_of (fst (ParseQuery (Values_Encode vals'))) = map_of vals')) \<and>
   byQueryParam_NextPage (ByQueryParam ''page'') ''http://x/?page=3'' doc
     = (''http://x/?page=4'', None)"
proof -
  have "byQueryParam_NextPage (ByQueryParam ''page'') ''http://x/?page=3'' doc
          = (''http://x/?page=4'', None)"
    by code_simp
  then show ?thesis
    using increment_general [of u uri vals p v vs doc] by blast
qed

lemma url_Parse_two_pages:
  "url_Parse ''http://x/?page=41&page=7'' =
     Inr (new_URL\<lparr>Scheme := ''http'', Host := ''x'', Path := ''/'',
       RawQuery := ''page=41&page=7''\<rparr>)"
  by code_simp

lemma ParseQuery_two_pages: "ParseQuery ''page=41&page=7'' = ([(''page'', [''41'', ''7''])], None)"
  by code_simp

theorem increments_first_value_witness:
  "\<exists>v' vals'.
     byQueryParam_NextPage (ByQueryParam ''page'') ''http://x/?page=41&page=7'' empty_document =
       (URL_String (new_URL\<lparr>Scheme := ''http'', Host := ''x'', Path := ''/'',
          RawQuery := Values_Encode vals'\<rparr>), None) \<and>
     is_decimal v' \<and> decimal_value v' = 42 \<and>
     map_of vals' = [''page'' \<mapsto> [v', ''7'']] \<and>
     map_of (fst (ParseQuery (Values_Encode vals'))) = map_of vals'"
proof -
  have a: "ParseQuery (RawQuery (new_URL\<lparr>Scheme := ''http'', Host := ''x'', Path := ''/'',
             RawQuery := ''page=41&page=7''\<rparr>)) = ([(''page'', [''41'', ''7''])], None)"
    using ParseQuery_two_pages by simp
  have b: "map_of [(''page'', [''41'', ''7''])] (param (ByQueryParam ''page'')) = Some [''41'', ''7'']"
    by (simp add: ByQueryParam_def)
  have c: "is_decimal ''41''"
    by (simp add: is_decimal_def is_digit_def)
  have e: "decimal_value ''41'' + 1 = 42"
    by (simp add: decimal_value_def decimal_from_def digit_value_def)
  have d: "decimal_value ''41'' + 1 < 2 ^ 64"
    unfolding e by simp
  have "\<exists>v' vals'.
       byQueryParam_NextPage (ByQueryParam ''page'') ''http://x/?page=41&page=7'' empty_document =
         (URL_String (new_URL\<lparr>Scheme := ''http'', Host := ''x'', Path := ''/'',
            RawQuery := ''page=41&page=7''\<rparr>\<lparr>RawQuery := Values_Encode vals'\<rparr>), None) \<and>
       is_decimal v' \<and> decimal_value v' = decimal_value ''41'' + 1 \<and>
       (v' = ''0'' \<or> hd v' \<noteq> CHR ''0'') \<and>
       map_of vals' = (map_of [(''page'', [''41'', ''7''])])(param (ByQueryParam ''page'') \<mapsto> v' # [''7'']) \<and>
       snd (ParseQuery (Values_Encode vals')) = None \<and>
       map_of (fst (ParseQuery (Values_Encode vals'))) = map_of vals'"
    using increments_first_value [of "''http://x/?page=41&page=7''" _ "[(''page'', [''41'', ''7''])]"
        "ByQueryParam ''page''" "''41''" "[''7'']" empty_document]
      url_Parse_two_pages a b c d
    by blast
  then show ?thesis
    unfolding e by (simp add: ByQueryParam_def) blast
qed

text \<open>
  The successor is computed by the unchecked \<^verbatim>\<open>parsed+1\<close> on a \<^verbatim>\<open>uint64\<close>: at the
  largest value it wraps to 0.
\<close>

lemma successor_of_max_wraps:
  "byQueryParam_NextPage (ByQueryParam ''page'') ''http://x/?page=18446744073709551615''
     empty_document = (''http://x/?page=0'', None)"
  by code_simp

text \<open>
  Claim C5 as stated fails for large values: the successor of the largest 64-bit value
  wraps to 0, and a digit string beyond the 64-bit range ends the pagination.
\<close>

theorem increment_out_of_range_counterexample:
  "byQueryParam_NextPage (ByQueryParam ''page'') ''http://x/?page=18446744073709551615''
     empty_document = (''http://x/?page=0'', None) \<and>
   byQueryParam_NextPage (ByQueryParam ''page'') ''http://x/?page=99999999999999999999''
     empty_document = ('''', None)"
  by code_simp

text \<open>
  Claim C2, amended. The first value is parsed in the unsigned 64-bit range: a digit string
  below \<open>2^64\<close> parses to its value; a digit string of \<open>2^64\<close> or more is a range error
  of \<^verbatim>\<open>ParseUint\<close>, which \<^verbatim>\<open>NextPage\<close> turns into \<^verbatim>\<open>("", nil)\<close>: it stops, and returns
  no error.
\<close>

theorem out_of_range_value_stops:
  assumes "url_Parse u = Inr uri"
    and "ParseQuery (RawQuery uri) = (vals, None)"
    and "map_of vals (param p) = Some (v # vs)"
    and "is_decimal v"
  shows "(decimal_value v < 2 ^ 64 \<longrightarrow> ParseUint v = (of_nat (decimal_value v), None)) \<and>
         (2 ^ 64 \<le> decimal_value v \<longrightarrow>
            ParseUint v = (maxVal, Some ErrRange) \<and>
            byQueryParam_NextPage p u doc = ('''', None))"
  using assms ParseUint_decimal [OF assms(4)]
  by (simp add: byQueryParam_NextPage_def)

lemma url_Parse_page_2_64:
  "url_Parse ''http://x/?page=18446744073709551616'' =
     Inr (new_URL\<lparr>Scheme := ''http'', Host := ''x'', Path := ''/'',
       RawQuery := ''page=18446744073709551616''\<rparr>)"
  by code_simp

lemma ParseQuery_page_2_64:
  "ParseQuery ''page=18446744073709551616'' = ([(''page'', [''18446744073709551616''])], None)"
  by code_simp

theorem out_of_range_value_stops_witness:
  "2 ^ 64 \<le> decimal_value ''18446744073709551616'' \<and>
   ParseUint ''18446744073709551616'' = (maxVal, Some ErrRange) \<and>
   byQueryParam_NextPage (ByQueryParam ''page'') ''http://x/?page=18446744073709551616''
     empty_document = ('''', None) \<and>
   decimal_value ''41'' < 2 ^ 64 \<and> ParseUint ''41'' = (41, None)"
proof -
  have a: "ParseQuery (RawQuery (new_URL\<lparr>Scheme := ''http'', Host := ''x'', Path := ''/'',
             RawQuery := ''page=18446744073709551616''\<rparr>))
           = ([(''page'', [''18446744073709551616''])], None)"
    using ParseQuery_page_2_64 by simp
  have b: "map_of [(''page'', [''18446744073709551616''])] (param (ByQueryParam ''page''))
           = Some [''18446744073709551616'']"
    by (simp add: ByQueryParam_def)
  have c: "is_decimal ''18446744073709551616''"
    by (simp add: is_decimal_def is_digit_def)
  have d: "2 ^ 64 \<le> decimal_value ''18446744073709551616''"
    by (simp add: decimal_value_def decimal_from_def digit_value_def)
  have a': "ParseQuery (RawQuery (new_URL\<lparr>Scheme := ''http'', Host := ''x'', Path := ''/'',
             RawQuery := ''page=41&page=7''\<rparr>)) = ([(''page'', [''41'', ''7''])], None)"
    using ParseQuery_two_pages by simp
  have b': "map_of [(''page'', [''41'', ''7''])] (param (ByQueryParam ''page'')) = Some [''41'', ''7'']"
    by (simp add: ByQueryParam_def)
  have c': "is_decimal ''41''"
    by (simp add: is_decimal_def is_digit_def)
  have d': "decimal_value ''41'' = 41"
    by (simp add: decimal_value_def decimal_from_def digit_value_def)
  show ?thesis
    using d out_of_range_value_stops [OF url_Parse_page_2_64 a b c, of empty_document]
      out_of_range_value_stops [OF url_Parse_two_pages a' b' c', of empty_document]
    unfolding d' by simp
qed

text \<open>
  Claim C2 as stated fails: a value of \<open>2^64\<close> is out of range, and the call returns
  \<^verbatim>\<open>("", nil)\<close>, which is no error.
\<close>

theorem out_of_range_not_fatal_counterexample:
  "byQueryParam_NextPage (ByQueryParam ''page'') ''http://x/?page=18446744073709551616''
     empty_document = ('''', None)"
  by code_simp

subsection \<open>ByQueryParam: the order of the parameters\<close>

lemma Values_index_update:
  "Values_index (AList.update k vs m) k' = (if k' = k then vs else Values_index m k')"
  by (simp add: Values_index_def update_conv')

lemma sorted_query_general:
  assumes "url_Parse u = Inr uri"
    and "ParseQuery (RawQuery uri) = (vals, None)"
    and "map_of vals (param p) = Some (v # vs)"
    and "ParseUint v = (n, None)"
  shows "\<exists>ps.
           byQueryParam_NextPage p u doc =
             (URL_String (uri\<lparr>RawQuery := join_query (map escaped_pair ps)\<rparr>), None) \<and>
           sorted (map fst ps) \<and>
           (\<forall>k. values_of ps k =
              (if k = param p then FormatUint (n + 1) # vs else Values_index vals k))"
proof -
  let ?vals' = "AList.update (param p) (FormatUint (n + 1) # vs) vals"
  have wf: "wf_Values ?vals'"
    using assms(2) by (rule wf_incremented)
  then have d: "distinct (map fst ?vals')"
    by (simp add: wf_Values_def)
  have "byQueryParam_NextPage p u doc =
          (URL_String (uri\<lparr>RawQuery := join_query (map escaped_pair (Values_pairs ?vals'))\<rparr>), None)"
    using byQueryParam_NextPage_increment [OF assms] by (simp add: Values_Encode_join)
  moreover have "sorted (map fst (Values_pairs ?vals'))"
    by (rule sorted_Values_pairs)
  moreover have "\<forall>k. values_of (Values_pairs ?vals') k =
      (if k = param p then FormatUint (n + 1) # vs else Values_index vals k)"
    by (simp add: values_of_Values_pairs [OF d] Values_index_update)
  ultimately show ?thesis
    by blast
qed

text \<open>
  Claim C1, amended. The returned URL does not keep the order of the parameters: its
  query is the parameters sorted by name in byte order, whatever their order was (the
  values of one name keep their order), each escaped and joined by \<^verbatim>\<open>&\<close>. On
  \<^verbatim>\<open>http://x/?sort=asc&page=3\<close> with the parameter \<^verbatim>\<open>page\<close> the result is
  \<^verbatim>\<open>http://x/?page=4&sort=asc\<close>.
\<close>

theorem query_is_sorted_by_name:
  "(url_Parse u = Inr uri \<and> ParseQuery (RawQuery uri) = (vals, None) \<and>
    map_of vals (param p) = Some (v # vs) \<and> ParseUint v = (n, None) \<longrightarrow>
    (\<exists>ps.
       byQueryParam_NextPage p u doc =
         (URL_String (uri\<lparr>RawQuery := join_query (map escaped_pair ps)\<rparr>), None) \<and>
       sorted (map fst ps) \<and>
       (\<forall>k. values_of ps k =
          (if k = param p then FormatUint (n + 1) # vs else Values_index vals k)))) \<and>
   byQueryParam_NextPage (ByQueryParam ''page'') ''http://x/?sort=asc&page=3'' doc
     = (''http://x/?page=4&sort=asc'', None)"
proof -
  have "byQueryParam_NextPage (ByQueryParam ''page'') ''http://x/?sort=asc&page=3'' doc
          = (''http://x/?page=4&sort=asc'', None)"
    by code_simp
  then show ?thesis
    using sorted_query_general [of u uri vals p v vs n doc] by blast
qed

lemma url_Parse_three_names:
  "url_Parse ''http://x/?sort=asc&page=3&lang=en'' =
     Inr (new_URL\<lparr>Scheme := ''http'', Host := ''x'', Path := ''/'',
       RawQuery := ''sort=asc&page=3&lang=en''\<rparr>)"
  by code_simp

lemma ParseQuery_three_names:
  "ParseQuery ''sort=asc&page=3&lang=en'' =
     ([(''sort'', [''asc'']), (''page'', [''3'']), (''lang'', [''en''])], None)"
  by code_simp

lemma ParseUint_3: "ParseUint ''3'' = (3, None)"
  by code_simp

lemma FormatUint_4: "FormatUint 4 = ''4''"
  by code_simp

theorem query_is_sorted_by_name_witness:
  "\<exists>ps.
     byQueryParam_NextPage (ByQueryParam ''page'') ''http://x/?sort=asc&page=3&lang=en''
         empty_document =
       (URL_String (new_URL\<lparr>Scheme := ''http'', Host := ''x'', Path := ''/'',
          RawQuery := join_query (map escaped_pair ps)\<rparr>), None) \<and>
     sorted (map fst ps) \<and>
     values_of ps ''page'' = [''4''] \<and> values_of ps ''sort'' = [''asc''] \<and>
     values_of ps ''lang'' = [''en'']"
proof -
  have a: "ParseQuery (RawQuery (new_URL\<lparr>Scheme := ''http'', Host := ''x'', Path := ''/'',
             RawQuery := ''sort=asc&page=3&lang=en''\<rparr>))
           = ([(''sort'', [''asc'']), (''page'', [''3'']), (''lang'', [''en''])], None)"
    using ParseQuery_three_names by simp
  have b: "map_of [(''sort'', [''asc'']), (''page'', [''3'']), (''lang'', [''en''])]
             (param (ByQueryParam ''page'')) = Some [''3'']"
    by (simp add: ByQueryParam_def)
  obtain ps where ps:
    "byQueryParam_NextPage (ByQueryParam ''page'') ''http://x/?sort=asc&page=3&lang=en''
         empty_document =
       (URL_String (new_URL\<lparr>Scheme := ''http'', Host := ''x'', Path := ''/'',
          RawQuery := ''sort=asc&page=3&lang=en''\<rparr>\<lparr>RawQuery := join_query (map escaped_pair ps)\<rparr>),
        None)"
    "sorted (map fst ps)"
    "\<forall>k. values_of ps k =
       (if k = param (ByQueryParam ''page'') then FormatUint (3 + 1) # []
        else Values_index [(''sort'', [''asc'']), (''page'', [''3'']), (''lang'', [''en''])] k)"
    using query_is_sorted_by_name [of "''http://x/?sort=asc&page=3&lang=en''" _
        "[(''sort'', [''asc'']), (''page'', [''3'']), (''lang'', [''en''])]"
        "ByQueryParam ''page''" "''3''" "[]" 3 empty_document]
      url_Parse_three_names a b ParseUint_3
    by blast
  from ps(3) have "values_of ps ''page'' = [''4'']" "values_of ps ''sort'' = [''asc'']"
    "values_of ps ''lang'' = [''en'']"
    by (simp_all add: ByQueryParam_def FormatUint_4 Values_index_def)
  with ps(1,2) show ?thesis
    by (intro exI [of _ ps]) simp
qed

text \<open>
  Claim C1 as stated fails on its own example: \<^verbatim>\<open>sort\<close> stood before \<^verbatim>\<open>page\<close> and
  comes after it in the result.
\<close>

theorem order_not_preserved_counterexample:
  "byQueryParam_NextPage (ByQueryParam ''page'') ''http://x/?sort=asc&page=3'' empty_document
     = (''http://x/?page=4&sort=asc'', None)"
  by code_simp

subsection \<open>BySelector: resolving the link\<close>


















lemma render_empty_iff: "render rest = [] \<longleftrightarrow> rest = []"
  by (cases rest) (simp_all add: render_def)









































subsection \<open>The strategies composed\<close>

text \<open>
  The composition that the package documents: \<^verbatim>\<open>LimitPages(1, ByQueryParam("page"))\<close>
  advances once and stops at the second call.
\<close>

lemma limit_one_around_query_param:
  "fst (limitPages_calls (stateless byQueryParam_NextPage)
          (LimitPages (1 :: 64 word) (ByQueryParam ''page''))
          [(''http://x/?page=3'', empty_document), (''http://x/?page=4'', empty_document)])
     = [(''http://x/?page=4'', None), ('''', None)]"
  by code_simp

end
